theory Spec2Isabelle
  imports Complex_Main "HOL-Library.Multiset"
begin

section \<open>Python values and exceptions\<close>

text \<open>
  Python floats are modelled as real numbers where the code only stores, compares and
  passes them on; where a property is about the value an arithmetic expression returns
  (the F1 score), the operations are those of binary64, defined with the function. A
  dictionary (\<^verbatim>\<open>Dict[str, float]\<close>) is a map from key to value, and
  \<^verbatim>\<open>d.get(k, default)\<close> is \<open>dict_get\<close>. Every exception the modelled code can raise is a
  value of \<open>py_exception\<close>, and a call that can raise returns a sum with the exception on
  the left.
\<close>

type_synonym metrics_dict = "string \<rightharpoonup> real"

definition dict_get :: "('k \<rightharpoonup> 'v) \<Rightarrow> 'k \<Rightarrow> 'v \<Rightarrow> 'v" where
  "dict_get d k dflt = (case d k of None \<Rightarrow> dflt | Some v \<Rightarrow> v)"

datatype py_exception =
    AttributeError
  | TypeError
  | ValueError
  | FileExistsError
  | FileNotFoundError
  | NotADirectoryError
  | IsADirectoryError
  | SameFileError
  | TooManyLinks
  | JSONDecodeError
  | ZeroDivisionError
  | UnicodeEncodeError
  | KeyboardInterrupt
  | SystemExit

text \<open>\<^verbatim>\<open>except Exception\<close> catches the instances of \<^verbatim>\<open>Exception\<close>; \<^verbatim>\<open>KeyboardInterrupt\<close> and
  \<^verbatim>\<open>SystemExit\<close> derive from \<^verbatim>\<open>BaseException\<close> only and pass through it.\<close>

fun is_exception :: "py_exception \<Rightarrow> bool" where
  "is_exception KeyboardInterrupt = False"
| "is_exception SystemExit = False"
| "is_exception e = True"

definition bind_exn :: "py_exception + 'a \<Rightarrow> ('a \<Rightarrow> py_exception + 'b) \<Rightarrow> py_exception + 'b" where
  "bind_exn m f = (case m of Inl e \<Rightarrow> Inl e | Inr x \<Rightarrow> f x)"

section \<open>The file system\<close>

text \<open>
  Both utility classes work on the file system through \<^verbatim>\<open>pathlib\<close>, \<^verbatim>\<open>os\<close> and \<^verbatim>\<open>shutil\<close>.
  A path is the list of its components below the root, already made absolute (so
  \<^verbatim>\<open>Path.absolute()\<close> is the identity), and the file system maps a path to the node stored
  there: a directory, a regular file with its content (and metadata), or a symbolic link
  with the path it points to. The root is always a directory. A symbolic link is followed
  where it is the last component of a path, at most \<open>max_symlinks\<close> times as the kernel
  does; links in the middle of a path are outside the model.
\<close>

type_synonym path = "string list"

datatype 'c node = Dir | File 'c | Symlink path

type_synonym 'c filesystem = "path \<Rightarrow> 'c node option"

definition node_at :: "'c filesystem \<Rightarrow> path \<Rightarrow> 'c node option" where
  "node_at fs p = (if p = [] then Some Dir else fs p)"

definition max_symlinks :: nat where
  "max_symlinks = 40"

text \<open>\<open>follow n fs p\<close> is the path reached from \<open>p\<close> through at most \<open>n\<close> nodes; \<open>None\<close> is
  the kernel's \<^verbatim>\<open>ELOOP\<close>.\<close>

fun follow :: "nat \<Rightarrow> 'c filesystem \<Rightarrow> path \<Rightarrow> path option" where
  "follow 0 fs p = None"
| "follow (Suc n) fs p =
     (case node_at fs p of
        Some (Symlink q) \<Rightarrow> follow n fs q
      | _ \<Rightarrow> Some p)"

definition resolve :: "'c filesystem \<Rightarrow> path \<Rightarrow> path option" where
  "resolve fs p = follow (Suc max_symlinks) fs p"

text \<open>\<^verbatim>\<open>os.stat\<close>: the node behind the links, \<open>None\<close> when there is none.\<close>

definition stat :: "'c filesystem \<Rightarrow> path \<Rightarrow> 'c node option" where
  "stat fs p = (case resolve fs p of None \<Rightarrow> None | Some q \<Rightarrow> node_at fs q)"

text \<open>\<^verbatim>\<open>Path.exists()\<close>, \<^verbatim>\<open>Path.is_dir()\<close> and \<^verbatim>\<open>Path.is_file()\<close> follow links and answer
  \<^verbatim>\<open>False\<close> on a dangling link.\<close>

definition path_exists :: "'c filesystem \<Rightarrow> path \<Rightarrow> bool" where
  "path_exists fs p = (stat fs p \<noteq> None)"

definition is_dir :: "'c filesystem \<Rightarrow> path \<Rightarrow> bool" where
  "is_dir fs p = (stat fs p = Some Dir)"

definition is_file :: "'c filesystem \<Rightarrow> path \<Rightarrow> bool" where
  "is_file fs p = (case stat fs p of Some (File c) \<Rightarrow> True | _ \<Rightarrow> False)"

text \<open>\<^verbatim>\<open>Path.mkdir(parents=True, exist_ok=True)\<close>: \<^verbatim>\<open>os.mkdir\<close> is tried first; on
  \<^verbatim>\<open>FileNotFoundError\<close> the parent is made and the call repeated; any other \<^verbatim>\<open>OSError\<close> is
  swallowed only when the path is a directory.\<close>

function mkdir_parents :: "'c filesystem \<Rightarrow> path \<Rightarrow> py_exception + 'c filesystem" where
  "mkdir_parents fs p =
     (if node_at fs p \<noteq> None then (if is_dir fs p then Inr fs else Inl FileExistsError)
      else if is_dir fs (butlast p) then Inr (fs(p \<mapsto> Dir))
      else if path_exists fs (butlast p) then Inl NotADirectoryError
      else (case mkdir_parents fs (butlast p) of
              Inl e \<Rightarrow> Inl e
            | Inr fs' \<Rightarrow> Inr (fs'(p \<mapsto> Dir))))"
  by pat_completeness auto
termination
proof (relation "measure (\<lambda>(fs, p). length p)")
  show "wf (measure (\<lambda>(fs :: 'c filesystem, p :: path). length p))"
    by simp
next
  fix fs :: "'c filesystem" and p :: path
  assume "\<not> node_at fs p \<noteq> None"
  then have "p \<noteq> []"
    by (auto simp: node_at_def)
  then show "((fs, butlast p), (fs, p)) \<in> measure (\<lambda>(fs, p). length p)"
    by (cases p rule: rev_cases) simp_all
qed

declare mkdir_parents.simps [simp del]

text \<open>\<^verbatim>\<open>open(p, 'w')\<close> followed by writing \<open>c\<close>: the links at \<open>p\<close> are followed, an existing
  file is replaced, a missing one is created in an existing directory.\<close>

definition write_file :: "'c filesystem \<Rightarrow> path \<Rightarrow> 'c \<Rightarrow> py_exception + 'c filesystem" where
  "write_file fs p c =
     (case resolve fs p of
        None \<Rightarrow> Inl TooManyLinks
      | Some q \<Rightarrow>
          (case node_at fs q of
             Some (File old) \<Rightarrow> Inr (fs(q \<mapsto> File c))
           | Some other \<Rightarrow> Inl IsADirectoryError
           | None \<Rightarrow>
               if is_dir fs (butlast q) then Inr (fs(q \<mapsto> File c))
               else if path_exists fs (butlast q) then Inl NotADirectoryError
               else Inl FileNotFoundError))"

text \<open>\<^verbatim>\<open>os.symlink(target, link)\<close> refuses any existing entry at \<open>link\<close>, a dangling link
  included.\<close>

definition os_symlink :: "'c filesystem \<Rightarrow> path \<Rightarrow> path \<Rightarrow> py_exception + 'c filesystem" where
  "os_symlink fs target link =
     (if node_at fs link \<noteq> None then Inl FileExistsError
      else if is_dir fs (butlast link) then Inr (fs(link \<mapsto> Symlink target))
      else if path_exists fs (butlast link) then Inl NotADirectoryError
      else Inl FileNotFoundError)"

text \<open>\<^verbatim>\<open>Path.unlink()\<close> removes the entry itself, not what a link points to.\<close>

definition unlink :: "'c filesystem \<Rightarrow> path \<Rightarrow> py_exception + 'c filesystem" where
  "unlink fs p =
     (case node_at fs p of
        None \<Rightarrow> Inl FileNotFoundError
      | Some Dir \<Rightarrow> Inl IsADirectoryError
      | Some other \<Rightarrow> Inr (fs(p := None)))"

text \<open>\<^verbatim>\<open>os.path.samefile\<close> as \<^verbatim>\<open>shutil\<close> uses it: both paths resolve to the same existing
  node (hard links are outside the model).\<close>

definition samefile :: "'c filesystem \<Rightarrow> path \<Rightarrow> path \<Rightarrow> bool" where
  "samefile fs a b =
     (case (resolve fs a, resolve fs b) of
        (Some x, Some y) \<Rightarrow> node_at fs x \<noteq> None \<and> x = y
      | _ \<Rightarrow> False)"

definition path_name :: "path \<Rightarrow> string" where
  "path_name p = (if p = [] then [] else last p)"

text \<open>\<^verbatim>\<open>shutil.copy2(src, dst)\<close>: a directory as destination means the file of the same name
  inside it; the same file on both sides is refused; the content is written through a link
  at the destination; the metadata travel with the content.\<close>

definition copy2 :: "'c filesystem \<Rightarrow> path \<Rightarrow> path \<Rightarrow> py_exception + 'c filesystem" where
  "copy2 fs src dst =
     (let dst' = (if is_dir fs dst then dst @ [path_name src] else dst)
      in if samefile fs src dst' then Inl SameFileError
         else (case stat fs src of
                 None \<Rightarrow> Inl FileNotFoundError
               | Some (File c) \<Rightarrow> write_file fs dst' c
               | Some other \<Rightarrow> Inl IsADirectoryError))"

subsection \<open>File names\<close>

text \<open>\<^verbatim>\<open>PurePath.suffix\<close> and \<^verbatim>\<open>PurePath.stem\<close> cut the name at its last dot, unless that
  dot is the first or the last character.\<close>

definition rfind_dot :: "string \<Rightarrow> nat option" where
  "rfind_dot name =
     (if CHR ''.'' \<in> set name
      then Some (length name - 1 - length (takeWhile (\<lambda>c. c \<noteq> CHR ''.'') (rev name)))
      else None)"

definition name_suffix :: "string \<Rightarrow> string" where
  "name_suffix name =
     (case rfind_dot name of
        None \<Rightarrow> []
      | Some i \<Rightarrow> if 0 < i \<and> i < length name - 1 then drop i name else [])"

definition name_stem :: "string \<Rightarrow> string" where
  "name_stem name =
     (case rfind_dot name of
        None \<Rightarrow> name
      | Some i \<Rightarrow> if 0 < i \<and> i < length name - 1 then take i name else name)"

text \<open>\<^verbatim>\<open>str.lower()\<close> on the ASCII letters, which are all that the extensions below hold.\<close>

definition lower_char :: "char \<Rightarrow> char" where
  "lower_char c =
     (let n = (of_char c :: nat) in if 65 \<le> n \<and> n \<le> 90 then char_of (n + 32) else c)"

definition lower :: "string \<Rightarrow> string" where
  "lower s = map lower_char s"

section \<open>Data processor (utils/data\_processor.py)\<close>

text \<open>The processor keeps \<^verbatim>\<open>data_root\<close>; \<^verbatim>\<open>images_dir\<close> and \<^verbatim>\<open>labels_dir\<close> are below it.\<close>

definition images_dir :: "path \<Rightarrow> path" where
  "images_dir data_root = data_root @ [''images'']"

definition labels_dir :: "path \<Rightarrow> path" where
  "labels_dir data_root = data_root @ [''labels'']"

definition image_extensions :: "string set" where
  "image_extensions = {''.jpg'', ''.jpeg'', ''.png'', ''.bmp'', ''.tiff'', ''.tif''}"

text \<open>
  \<open>get_image_files\<close> is \<^verbatim>\<open>_get_image_files\<close>. Its argument \<open>listing\<close> is what
  \<^verbatim>\<open>directory.rglob('*')\<close> yields, every path below the directory in the order of the
  operating system's walk; the list comprehension keeps the entries with an image
  extension that are files.
\<close>

definition get_image_files :: "'c filesystem \<Rightarrow> path list \<Rightarrow> path list" where
  "get_image_files fs listing =
     filter (\<lambda>f. lower (name_suffix (path_name f)) \<in> image_extensions \<and> is_file fs f) listing"

text \<open>One round of the staging loop of \<^verbatim>\<open>prepare_dataset\<close>. The result is the exception
  raised, if any, and the file system as the round leaves it.\<close>

definition stage_file ::
  "bool \<Rightarrow> path \<Rightarrow> 'c filesystem \<Rightarrow> path \<Rightarrow> py_exception option \<times> 'c filesystem" where
  "stage_file copy_mode target_dir fs img_file =
     (let target_file = target_dir @ [path_name img_file]
      in if copy_mode then
           (case copy2 fs img_file target_file of
              Inl e \<Rightarrow> (Some e, fs)
            | Inr fs' \<Rightarrow> (None, fs'))
         else
           (case (if path_exists fs target_file then unlink fs target_file else Inr fs) of
              Inl e \<Rightarrow> (Some e, fs)
            | Inr fs1 \<Rightarrow>
                (case os_symlink fs1 img_file target_file of
                   Inl e \<Rightarrow> (Some e, fs1)
                 | Inr fs2 \<Rightarrow> (None, fs2))))"

fun stage_files ::
  "bool \<Rightarrow> path \<Rightarrow> 'c filesystem \<Rightarrow> path list \<Rightarrow> py_exception option \<times> 'c filesystem" where
  "stage_files copy_mode target_dir fs [] = (None, fs)"
| "stage_files copy_mode target_dir fs (img_file # rest) =
     (case stage_file copy_mode target_dir fs img_file of
        (Some e, fs') \<Rightarrow> (Some e, fs')
      | (None, fs') \<Rightarrow> stage_files copy_mode target_dir fs' rest)"

text \<open>
  \<open>prepare_dataset data_root fs source_images listing method_name copy_mode\<close>: \<open>listing\<close> is
  the walk of the source directory, taken when \<^verbatim>\<open>_get_image_files\<close> is called. The result
  is the returned flag, or the exception that leaves the method, and the file system
  afterwards. The progress lines it prints are not modelled.
\<close>

definition prepare_dataset ::
  "path \<Rightarrow> 'c filesystem \<Rightarrow> path \<Rightarrow> path list \<Rightarrow> string \<Rightarrow> bool
     \<Rightarrow> (py_exception + bool) \<times> 'c filesystem" where
  "prepare_dataset data_root fs source_images listing method_name copy_mode =
     (let target_dir = images_dir data_root @ [method_name]
      in case mkdir_parents fs target_dir of
           Inl e \<Rightarrow> (Inl e, fs)
         | Inr fs1 \<Rightarrow>
             if \<not> path_exists fs1 source_images then (Inr False, fs1)
             else
               (let image_files = get_image_files fs1 listing
                in if image_files = [] then (Inr False, fs1)
                   else (case stage_files copy_mode target_dir fs1 image_files of
                           (Some e, fs2) \<Rightarrow> (Inl e, fs2)
                         | (None, fs2) \<Rightarrow> (Inr True, fs2))))"

text \<open>
  The vocabulary of the staging properties. A source file is a regular file that is not
  itself an entry of the target directory. An entry of the target directory can be
  replaced by the loop when it is absent, a regular file, or (in link mode) a link to a
  source file. \<open>staged\<close> is the target directory after one entry per file has been written,
  in the order of the list: a copy of the file in copy mode, a link to it in link mode.
\<close>

definition source_ok :: "path \<Rightarrow> 'c filesystem \<Rightarrow> path \<Rightarrow> bool" where
  "source_ok target_dir fs f =
     (f \<noteq> [] \<and> (\<exists>c. fs f = Some (File c)) \<and> (\<forall>n. f \<noteq> target_dir @ [n]))"

definition entry_ok :: "bool \<Rightarrow> path \<Rightarrow> 'c filesystem \<Rightarrow> path \<Rightarrow> bool" where
  "entry_ok copy_mode target_dir fs p =
     (case fs p of
        None \<Rightarrow> True
      | Some (File c) \<Rightarrow> True
      | Some (Symlink g) \<Rightarrow> \<not> copy_mode \<and> source_ok target_dir fs g
      | Some Dir \<Rightarrow> False)"

definition staged_entry :: "bool \<Rightarrow> 'c filesystem \<Rightarrow> path \<Rightarrow> 'c node" where
  "staged_entry copy_mode fs f =
     (if copy_mode then (case fs f of Some (File c) \<Rightarrow> File c | other \<Rightarrow> Symlink f)
      else Symlink f)"

definition staged :: "bool \<Rightarrow> path \<Rightarrow> 'c filesystem \<Rightarrow> path list \<Rightarrow> 'c filesystem" where
  "staged copy_mode target_dir fs files =
     foldl (\<lambda>a f. a(target_dir @ [path_name f] \<mapsto> staged_entry copy_mode fs f)) fs files"

subsection \<open>verify\_dataset\<close>

text \<open>The entries of \<^verbatim>\<open>result['issues']\<close>, by kind; the wording of the messages is not
  modelled.\<close>

datatype issue =
    ImagesDirMissing path
  | LabelsDirMissing path
  | UnmatchedImages nat
  | UnmatchedLabels nat

record verification =
  v_method :: string
  images_exist :: bool
  labels_exist :: bool
  image_count :: nat
  label_count :: nat
  matched_count :: nat
  issues :: "issue list"

definition image_stems :: "path list \<Rightarrow> string set" where
  "image_stems files = (\<lambda>f. name_stem (path_name f)) ` set files"

text \<open>
  \<open>verify_dataset data_root fs image_listing label_files method_name\<close>: \<open>image_listing\<close> is
  the walk \<^verbatim>\<open>images_dir.rglob('*')\<close> and \<open>label_files\<close> is
  \<^verbatim>\<open>list(labels_val_dir.glob('*.txt'))\<close>.
\<close>

definition verify_dataset ::
  "path \<Rightarrow> 'c filesystem \<Rightarrow> path list \<Rightarrow> path list \<Rightarrow> string \<Rightarrow> verification" where
  "verify_dataset data_root fs image_listing label_files method_name =
     (let result = \<lparr>v_method = method_name, images_exist = False, labels_exist = False,
                     image_count = 0, label_count = 0, matched_count = 0, issues = []\<rparr>;
          imgs_dir = images_dir data_root @ [method_name]
      in if \<not> path_exists fs imgs_dir
         then result\<lparr>issues := issues result @ [ImagesDirMissing imgs_dir]\<rparr>
         else
           (let image_files = get_image_files fs image_listing;
                result = result\<lparr>images_exist := True, image_count := length image_files\<rparr>;
                labels_val_dir = labels_dir data_root @ [''val'']
            in if \<not> path_exists fs labels_val_dir
               then result\<lparr>issues := issues result @ [LabelsDirMissing labels_val_dir]\<rparr>
               else
                 (let result = result\<lparr>labels_exist := True, label_count := length label_files\<rparr>;
                      img_stems = image_stems image_files;
                      label_stems = image_stems label_files;
                      matched = img_stems \<inter> label_stems;
                      result = result\<lparr>matched_count := card matched\<rparr>;
                      unmatched_images = img_stems - label_stems;
                      unmatched_labels = label_stems - img_stems;
                      result = (if unmatched_images \<noteq> {}
                                then result\<lparr>issues := issues result
                                                @ [UnmatchedImages (card unmatched_images)]\<rparr>
                                else result);
                      result = (if unmatched_labels \<noteq> {}
                                then result\<lparr>issues := issues result
                                                @ [UnmatchedLabels (card unmatched_labels)]\<rparr>
                                else result)
                  in result)))"

section \<open>Metrics calculator (utils/metrics\_calculator.py)\<close>

subsection \<open>extract\_yolo\_metrics\<close>

text \<open>
  The metrics object of the detection engine is opaque. What the extractor does with it is
  attribute access, \<^verbatim>\<open>hasattr\<close> and \<^verbatim>\<open>float(...)\<close>. Reading an attribute finds it absent,
  or yields its value, or runs a property of the object that raises. A value is one that
  \<^verbatim>\<open>float\<close> converts, or one on which \<^verbatim>\<open>float\<close> raises: \<^verbatim>\<open>TypeError\<close> on a value that is
  no number (\<^verbatim>\<open>None\<close>, a list), \<^verbatim>\<open>ValueError\<close> on a string that does not spell one.
  Reading the same attribute again has the same outcome.
\<close>

datatype py_value = Number real | NotANumber | Malformed

datatype 'a attribute = Absent | Present 'a | Raising py_exception

record box_obj =
  box_map50 :: "py_value attribute"
  box_map :: "py_value attribute"
  box_map75 :: "py_value attribute"
  box_mp :: "py_value attribute"
  box_mr :: "py_value attribute"

record metrics_obj =
  box :: "box_obj attribute"

text \<open>\<^verbatim>\<open>obj.attr\<close>\<close>

fun getattr :: "'a attribute \<Rightarrow> py_exception + 'a" where
  "getattr Absent = Inl AttributeError"
| "getattr (Present v) = Inr v"
| "getattr (Raising e) = Inl e"

text \<open>\<^verbatim>\<open>hasattr(obj, 'attr')\<close> reads the attribute and answers \<^verbatim>\<open>False\<close> on
  \<^verbatim>\<open>AttributeError\<close> only; anything else a property raises leaves \<^verbatim>\<open>hasattr\<close>.\<close>

fun hasattr :: "'a attribute \<Rightarrow> py_exception + bool" where
  "hasattr Absent = Inr False"
| "hasattr (Present v) = Inr True"
| "hasattr (Raising e) = (if e = AttributeError then Inr False else Inl e)"

text \<open>\<^verbatim>\<open>float(v)\<close>\<close>

fun py_float :: "py_value \<Rightarrow> py_exception + real" where
  "py_float (Number x) = Inr x"
| "py_float NotANumber = Inl TypeError"
| "py_float Malformed = Inl ValueError"

text \<open>\<^verbatim>\<open>float(metrics_obj.box.attr)\<close>\<close>

definition float_attr ::
  "metrics_obj \<Rightarrow> (box_obj \<Rightarrow> py_value attribute) \<Rightarrow> py_exception + real" where
  "float_attr metrics_obj attr =
     bind_exn (getattr (box metrics_obj)) (\<lambda>b. bind_exn (getattr (attr b)) py_float)"

text \<open>\<^verbatim>\<open>float(metrics_obj.box.attr) if hasattr(metrics_obj.box, 'attr') else 0.0\<close>: the
  condition is evaluated first.\<close>

definition float_attr_or_zero ::
  "metrics_obj \<Rightarrow> (box_obj \<Rightarrow> py_value attribute) \<Rightarrow> py_exception + real" where
  "float_attr_or_zero metrics_obj attr =
     bind_exn (getattr (box metrics_obj)) (\<lambda>b.
     bind_exn (hasattr (attr b)) (\<lambda>h.
       if h then float_attr metrics_obj attr else Inr 0))"

text \<open>The body of the \<^verbatim>\<open>try\<close> block: the dictionary display evaluates its five entries in
  order, and the first exception leaves the block.\<close>

definition extract_try :: "metrics_obj \<Rightarrow> py_exception + metrics_dict" where
  "extract_try metrics_obj =
     bind_exn (float_attr metrics_obj box_map50) (\<lambda>v50.
     bind_exn (float_attr metrics_obj box_map) (\<lambda>v.
     bind_exn (float_attr_or_zero metrics_obj box_map75) (\<lambda>v75.
     bind_exn (float_attr_or_zero metrics_obj box_mp) (\<lambda>p.
     bind_exn (float_attr_or_zero metrics_obj box_mr) (\<lambda>r.
       Inr [''mAP@0.5'' \<mapsto> v50, ''mAP@0.5:0.95'' \<mapsto> v, ''mAP@0.75'' \<mapsto> v75,
            ''precision'' \<mapsto> p, ''recall'' \<mapsto> r])))))"

definition zero_metrics :: metrics_dict where
  "zero_metrics =
     [''mAP@0.5'' \<mapsto> 0, ''mAP@0.5:0.95'' \<mapsto> 0, ''mAP@0.75'' \<mapsto> 0,
      ''precision'' \<mapsto> 0, ''recall'' \<mapsto> 0]"

text \<open>What the calculator prints; the texts themselves are not modelled.\<close>

datatype message =
    ExtractionWarning py_exception
  | MetricsSaved path
  | SummarySaved path

text \<open>
  \<open>extract_yolo_metrics print_raises metrics_obj\<close> is the dictionary returned and the lines
  printed, or the exception that leaves the method. The handler \<^verbatim>\<open>except Exception\<close> takes
  the instances of \<^verbatim>\<open>Exception\<close> only, and its \<^verbatim>\<open>print\<close> of the warning is itself a call
  that can raise (a console that cannot encode the text of the warning raises
  \<^verbatim>\<open>UnicodeEncodeError\<close>): \<open>print_raises\<close> is the exception that \<^verbatim>\<open>print\<close> raises on this
  console, \<open>None\<close> when it prints.
\<close>

definition extract_yolo_metrics ::
  "py_exception option \<Rightarrow> metrics_obj \<Rightarrow> py_exception + metrics_dict \<times> message list" where
  "extract_yolo_metrics print_raises metrics_obj =
     (case extract_try metrics_obj of
        Inr d \<Rightarrow> Inr (d, [])
      | Inl e \<Rightarrow>
          if is_exception e then
            (case print_raises of
               Some pe \<Rightarrow> Inl pe
             | None \<Rightarrow> Inr (zero_metrics, [ExtractionWarning e]))
          else Inl e)"

text \<open>No property of the object raises anything but instances of \<^verbatim>\<open>Exception\<close>.\<close>

definition attribute_ordinary :: "'a attribute \<Rightarrow> bool" where
  "attribute_ordinary a = (case a of Raising e \<Rightarrow> is_exception e | other \<Rightarrow> True)"

definition raises_only_exceptions :: "metrics_obj \<Rightarrow> bool" where
  "raises_only_exceptions metrics_obj =
     (attribute_ordinary (box metrics_obj)
      \<and> (case box metrics_obj of
            Present b \<Rightarrow>
              attribute_ordinary (box_map50 b) \<and> attribute_ordinary (box_map b)
              \<and> attribute_ordinary (box_map75 b) \<and> attribute_ordinary (box_mp b)
              \<and> attribute_ordinary (box_mr b)
          | other \<Rightarrow> True))"

definition metric_keys :: "string set" where
  "metric_keys = {''mAP@0.5'', ''mAP@0.5:0.95'', ''mAP@0.75'', ''precision'', ''recall''}"

subsection \<open>calculate\_f1\_score\<close>

text \<open>The score over the reals, as the code that stores and tabulates it passes it on.\<close>

definition calculate_f1_score :: "real \<Rightarrow> real \<Rightarrow> real" where
  "calculate_f1_score precision recall =
     (if precision + recall = 0 then 0
      else 2 * (precision * recall) / (precision + recall))"

text \<open>
  A Python \<^verbatim>\<open>float\<close> is an IEEE 754 binary64 number, and \<^verbatim>\<open>+\<close>, \<^verbatim>\<open>*\<close> and \<^verbatim>\<open>/\<close> return the
  exact result rounded to the nearest such number, a tie going to the even significand.
  \<open>binary64 x\<close> is that rounding of the real \<open>x\<close>: numbers with exponent \<open>e\<close> are the
  multiples of \<open>2 powr (e - 52)\<close>, and the exponent does not go below \<open>- 1022\<close>, where the
  subnormal numbers, the multiples of \<open>2 powr - 1074\<close>, begin. Overflow to an infinity (from
  \<open>2 powr 1024\<close> on), NaN and the sign of zero are left out: for precision and recall in the
  unit interval every intermediate value lies in \<open>[0, 2]\<close>. \<^verbatim>\<open>x / y\<close> raises
  \<^verbatim>\<open>ZeroDivisionError\<close> when \<open>y\<close> is zero.
\<close>

definition round_half_even :: "real \<Rightarrow> int" where
  "round_half_even y =
     (let f = \<lfloor>y\<rfloor>
      in if y - of_int f < 1/2 then f
         else if y - of_int f > 1/2 then f + 1
         else if even f then f else f + 1)"

definition binary64_exponent :: "real \<Rightarrow> int" where
  "binary64_exponent x = max \<lfloor>log 2 \<bar>x\<bar>\<rfloor> (- 1022)"

definition binary64 :: "real \<Rightarrow> real" where
  "binary64 x =
     (if x = 0 then 0
      else (let u = 2 powr (of_int (binary64_exponent x) - 52)
            in of_int (round_half_even (x / u)) * u))"

definition is_binary64 :: "real \<Rightarrow> bool" where
  "is_binary64 x = (binary64 x = x)"

definition float_add :: "real \<Rightarrow> real \<Rightarrow> real" where
  "float_add x y = binary64 (x + y)"

definition float_mul :: "real \<Rightarrow> real \<Rightarrow> real" where
  "float_mul x y = binary64 (x * y)"

definition float_div :: "real \<Rightarrow> real \<Rightarrow> py_exception + real" where
  "float_div x y = (if y = 0 then Inl ZeroDivisionError else Inr (binary64 (x / y)))"

text \<open>\<open>calculate_f1_score\<close> in that arithmetic, operation by operation.\<close>

definition calculate_f1_score_float :: "real \<Rightarrow> real \<Rightarrow> py_exception + real" where
  "calculate_f1_score_float precision recall =
     (if float_add precision recall = 0 then Inr 0
      else float_div (float_mul 2 (float_mul precision recall)) (float_add precision recall))"

text \<open>The value as the specification words it: 0 if \<^verbatim>\<open>p + r == 0\<close>, and \<^verbatim>\<open>2*p*r/(p+r)\<close>
  otherwise, which Python evaluates from the left, as \<^verbatim>\<open>((2*p)*r)/(p+r)\<close>.\<close>

definition claimed_f1 :: "real \<Rightarrow> real \<Rightarrow> py_exception + real" where
  "claimed_f1 p r =
     (if float_add p r = 0 then Inr 0
      else float_div (float_mul (float_mul 2 p) r) (float_add p r))"

subsection \<open>save\_metrics and save\_metrics\_summary\<close>

text \<open>
  A \<^verbatim>\<open>metrics.json\<close> file holds a JSON object whose keys \<^verbatim>\<open>model\<close>, \<^verbatim>\<open>method\<close> and
  \<^verbatim>\<open>metrics\<close> may each be missing; the summary is a text file, which is not JSON.
\<close>

record stored_result =
  json_model :: "string option"
  json_method :: "string option"
  json_metrics :: "metrics_dict option"

record summary =
  sum_model :: string
  sum_method :: string
  sum_map5095 :: real
  sum_map50 :: real
  sum_map75 :: real
  sum_precision :: real
  sum_recall :: real
  sum_f1 :: real

datatype file_content = JsonObject stored_result | SummaryText summary

text \<open>
  The caller's dictionary is a Python object that \<^verbatim>\<open>save_metrics\<close> receives by reference,
  so dictionaries live in a heap and are passed by address. A result object of
  \<^verbatim>\<open>metrics_history\<close> refers to the dictionary it was built from.
\<close>

type_synonym address = nat

record result_obj =
  res_model :: string
  res_method :: string
  res_metrics :: address

record calculator_state =
  heap :: "address \<Rightarrow> metrics_dict"
  file_system :: "file_content filesystem"
  stdout :: "message list"
  metrics_history :: "result_obj list"

definition save_metrics ::
  "calculator_state \<Rightarrow> address \<Rightarrow> string \<Rightarrow> string \<Rightarrow> path
     \<Rightarrow> (py_exception + unit) \<times> calculator_state" where
  "save_metrics st metrics method_name model_name output_path =
     (case mkdir_parents (file_system st) (butlast output_path) of
        Inl e \<Rightarrow> (Inl e, st)
      | Inr fs1 \<Rightarrow>
          (let d = heap st metrics;
               f1 = calculate_f1_score (dict_get d ''precision'' 0) (dict_get d ''recall'' 0);
               d' = d(''f1_score'' \<mapsto> f1);
               st1 = st\<lparr>file_system := fs1, heap := (heap st)(metrics := d')\<rparr>;
               result = \<lparr>res_model = model_name, res_method = method_name,
                          res_metrics = metrics\<rparr>;
               document = \<lparr>json_model = Some model_name, json_method = Some method_name,
                            json_metrics = Some d'\<rparr>
           in case write_file fs1 output_path (JsonObject document) of
                Inl e \<Rightarrow> (Inl e, st1)
              | Inr fs2 \<Rightarrow>
                  (Inr (), st1\<lparr>file_system := fs2,
                               stdout := stdout st1 @ [MetricsSaved output_path],
                               metrics_history := metrics_history st1 @ [result]\<rparr>)))"

text \<open>The summary prints each value with four decimals; the rounding of the text is not
  modelled, the record holds the values that are formatted.\<close>

definition save_metrics_summary ::
  "calculator_state \<Rightarrow> address \<Rightarrow> string \<Rightarrow> string \<Rightarrow> path
     \<Rightarrow> (py_exception + unit) \<times> calculator_state" where
  "save_metrics_summary st metrics method_name model_name output_path =
     (case mkdir_parents (file_system st) (butlast output_path) of
        Inl e \<Rightarrow> (Inl e, st)
      | Inr fs1 \<Rightarrow>
          (let d = heap st metrics;
               f1 = calculate_f1_score (dict_get d ''precision'' 0) (dict_get d ''recall'' 0);
               st1 = st\<lparr>file_system := fs1\<rparr>;
               text = \<lparr>sum_model = model_name, sum_method = method_name,
                        sum_map5095 = dict_get d ''mAP@0.5:0.95'' 0,
                        sum_map50 = dict_get d ''mAP@0.5'' 0,
                        sum_map75 = dict_get d ''mAP@0.75'' 0,
                        sum_precision = dict_get d ''precision'' 0,
                        sum_recall = dict_get d ''recall'' 0,
                        sum_f1 = f1\<rparr>
           in case write_file fs1 output_path (SummaryText text) of
                Inl e \<Rightarrow> (Inl e, st1)
              | Inr fs2 \<Rightarrow>
                  (Inr (), st1\<lparr>file_system := fs2,
                               stdout := stdout st1 @ [SummarySaved output_path]\<rparr>)))"

subsection \<open>create\_comparison\_table\<close>

text \<open>A row of the data frame, with the columns \<^verbatim>\<open>Method\<close>, \<^verbatim>\<open>Model\<close>, \<^verbatim>\<open>mAP@0.5\<close>,
  \<^verbatim>\<open>mAP@0.5:0.95\<close>, \<^verbatim>\<open>mAP@0.75\<close>, \<^verbatim>\<open>Precision\<close>, \<^verbatim>\<open>Recall\<close> and \<^verbatim>\<open>F1-Score\<close>.\<close>

record row =
  Method :: string
  Model :: string
  mAP50 :: real
  mAP5095 :: real
  mAP75 :: real
  Precision :: real
  Recall :: real
  F1_Score :: real

text \<open>The dictionary appended to \<^verbatim>\<open>data\<close> for a directory named \<open>dir_name\<close> whose
  \<^verbatim>\<open>metrics.json\<close> holds \<open>result\<close>.\<close>

definition row_of :: "string \<Rightarrow> stored_result \<Rightarrow> row" where
  "row_of dir_name result =
     (let metrics = (case json_metrics result of None \<Rightarrow> Map.empty | Some m \<Rightarrow> m);
          f1 = calculate_f1_score (dict_get metrics ''precision'' 0) (dict_get metrics ''recall'' 0)
      in \<lparr>Method = (case json_method result of None \<Rightarrow> dir_name | Some m \<Rightarrow> m),
          Model = (case json_model result of None \<Rightarrow> ''Unknown'' | Some m \<Rightarrow> m),
          mAP50 = dict_get metrics ''mAP@0.5'' 0,
          mAP5095 = dict_get metrics ''mAP@0.5:0.95'' 0,
          mAP75 = dict_get metrics ''mAP@0.75'' 0,
          Precision = dict_get metrics ''precision'' 0,
          Recall = dict_get metrics ''recall'' 0,
          F1_Score = f1\<rparr>)"

text \<open>
  The scan loop. \<open>names\<close> is what \<^verbatim>\<open>results_path.iterdir()\<close> yields, in the order of the
  operating system. Opening \<^verbatim>\<open>metrics.json\<close> and \<^verbatim>\<open>json.load\<close> can raise; the model reads
  the file through its links.
\<close>

fun collect_rows ::
  "file_content filesystem \<Rightarrow> path \<Rightarrow> string list \<Rightarrow> py_exception + row list" where
  "collect_rows fs results_path [] = Inr []"
| "collect_rows fs results_path (name # names) =
     (let method_dir = results_path @ [name];
          metrics_file = method_dir @ [''metrics.json'']
      in if \<not> is_dir fs method_dir then collect_rows fs results_path names
         else if \<not> path_exists fs metrics_file then collect_rows fs results_path names
         else (case stat fs metrics_file of
                 Some (File (JsonObject result)) \<Rightarrow>
                   bind_exn (collect_rows fs results_path names)
                     (\<lambda>data. Inr (row_of name result # data))
               | Some (File (SummaryText t)) \<Rightarrow> Inl JSONDecodeError
               | other \<Rightarrow> Inl IsADirectoryError))"

text \<open>
  \<^verbatim>\<open>df.sort_values('mAP@0.5:0.95', ascending=False)\<close> is a call into pandas, which sorts
  with an algorithm of the numerical library underneath it. The sort is a parameter
  \<open>sort_values\<close> of the model, and \<open>sort_values_contract\<close> is what pandas documents of the
  call: the rows are permuted into descending order of the column.
\<close>

definition sorted_desc :: "row list \<Rightarrow> bool" where
  "sorted_desc df = sorted_wrt (\<lambda>a b. mAP5095 a \<ge> mAP5095 b) df"

definition sort_values_contract :: "(row list \<Rightarrow> row list) \<Rightarrow> bool" where
  "sort_values_contract sort_values =
     (\<forall>df. mset (sort_values df) = mset df \<and> sorted_desc (sort_values df))"

definition create_comparison_table ::
  "(row list \<Rightarrow> row list) \<Rightarrow> file_content filesystem \<Rightarrow> path \<Rightarrow> string list
     \<Rightarrow> py_exception + row list" where
  "create_comparison_table sort_values fs results_path names =
     (case stat fs results_path of
        None \<Rightarrow> Inl FileNotFoundError
      | Some Dir \<Rightarrow>
          bind_exn (collect_rows fs results_path names)
            (\<lambda>df. if df \<noteq> [] then Inr (sort_values df) else Inr df)
      | Some other \<Rightarrow> Inl NotADirectoryError)"

text \<open>A sort that meets the contract.\<close>

definition stable_sort_values :: "row list \<Rightarrow> row list" where
  "stable_sort_values df = sort_key (\<lambda>r. - mAP5095 r) df"

subsection \<open>print\_comparison\_table\<close>

text \<open>
  The percentage printed for a row. The quotient by a baseline of zero is not a number of
  this model (the floating-point division yields an infinity), so it has a value of its
  own.
\<close>

datatype improvement = Percent real | ZeroBaseline

definition improvement_of :: "real \<Rightarrow> row \<Rightarrow> improvement" where
  "improvement_of baseline_map r =
     (if baseline_map = 0 then ZeroBaseline
      else Percent ((mAP5095 r - baseline_map) / baseline_map * 100))"

text \<open>The loop over \<^verbatim>\<open>df.iterrows()\<close>: the lines printed, as method name and percentage.\<close>

fun improvement_lines :: "real \<Rightarrow> row list \<Rightarrow> (string \<times> improvement) list" where
  "improvement_lines baseline_map [] = []"
| "improvement_lines baseline_map (r # rows) =
     (if mAP5095 r \<noteq> baseline_map
      then (Method r, improvement_of baseline_map r) # improvement_lines baseline_map rows
      else improvement_lines baseline_map rows)"

datatype printed =
    NoComparisonData
  | ComparisonTable "row list"
  | RelativeImprovement "(string \<times> improvement) list"

definition print_comparison_table :: "row list \<Rightarrow> printed list" where
  "print_comparison_table df =
     (if df = [] then [NoComparisonData]
      else ComparisonTable df #
           (if length df > 1
            then (let baseline_map = mAP5095 (last df)
                  in [RelativeImprovement (improvement_lines baseline_map df)])
            else []))"

section \<open>Example inputs\<close>

text \<open>A metrics object without the optional attributes \<^verbatim>\<open>map75\<close> and \<^verbatim>\<open>mp\<close>, one whose
  \<^verbatim>\<open>map\<close> attribute is not a number, and one whose \<^verbatim>\<open>box\<close> property is interrupted.\<close>

definition partial_obj :: metrics_obj where
  "partial_obj =
     \<lparr>box = Present \<lparr>box_map50 = Present (Number (1/2)), box_map = Present (Number (1/4)),
                      box_map75 = Absent, box_mp = Absent, box_mr = Present (Number (3/4))\<rparr>\<rparr>"

definition broken_obj :: metrics_obj where
  "broken_obj =
     \<lparr>box = Present \<lparr>box_map50 = Present (Number (1/2)), box_map = Present NotANumber,
                      box_map75 = Absent, box_mp = Absent, box_mr = Present (Number (3/4))\<rparr>\<rparr>"

definition interrupted_obj :: metrics_obj where
  "interrupted_obj = \<lparr>box = Raising KeyboardInterrupt\<rparr>"

text \<open>The smallest positive float, \<^verbatim>\<open>5e-324\<close>.\<close>

definition smallest_subnormal :: real where
  "smallest_subnormal = 2 powr (- 1074)"

text \<open>A row of the table for a method with the given mAP@0.5:0.95.\<close>

definition example_row :: "string \<Rightarrow> real \<Rightarrow> row" where
  "example_row method_name v =
     \<lparr>Method = method_name, Model = ''yolov8n'', mAP50 = 0, mAP5095 = v, mAP75 = 0,
      Precision = 1/2, Recall = 1, F1_Score = 2/3\<rparr>"

text \<open>A calculator whose heap holds one metrics dictionary at address 0, before and after
  \<^verbatim>\<open>save_metrics\<close> has written it to \<^verbatim>\<open>results/raw/metrics.json\<close>.\<close>
definition example_state :: calculator_state where
  "example_state =
     \<lparr>heap = (\<lambda>a. Map.empty)(0 := [''mAP@0.5:0.95'' \<mapsto> 2/5, ''precision'' \<mapsto> 1/2,
                                     ''recall'' \<mapsto> 1]),
      file_system = [[''results''] \<mapsto> Dir],
      stdout = [],
      metrics_history = []\<rparr>"

definition saved_state :: calculator_state where
  "saved_state =
     \<lparr>heap = (\<lambda>a. Map.empty)(0 := [''mAP@0.5:0.95'' \<mapsto> 2/5, ''precision'' \<mapsto> 1/2,
                                     ''recall'' \<mapsto> 1, ''f1_score'' \<mapsto> 2/3]),
      file_system =
        [[''results''] \<mapsto> Dir,
         [''results'', ''raw''] \<mapsto> Dir,
         [''results'', ''raw'', ''metrics.json''] \<mapsto>
            File (JsonObject \<lparr>json_model = Some ''yolov8n'', json_method = Some ''raw'',
              json_metrics = Some [''mAP@0.5:0.95'' \<mapsto> 2/5, ''precision'' \<mapsto> 1/2,
                                   ''recall'' \<mapsto> 1, ''f1_score'' \<mapsto> 2/3]\<rparr>)],
      stdout = [MetricsSaved [''results'', ''raw'', ''metrics.json'']],
      metrics_history = [\<lparr>res_model = ''yolov8n'', res_method = ''raw'', res_metrics = 0\<rparr>]\<rparr>"

text \<open>A staged data root: three images of method \<^verbatim>\<open>raw\<close> and three label files, two of
  which pair up; and one where every image has its label.\<close>

definition paired_data :: "unit filesystem" where
  "paired_data =
     [[''data''] \<mapsto> Dir,
      [''data'', ''images''] \<mapsto> Dir,
      [''data'', ''images'', ''raw''] \<mapsto> Dir,
      [''data'', ''images'', ''raw'', ''a.jpg''] \<mapsto> File (),
      [''data'', ''images'', ''raw'', ''b.jpg''] \<mapsto> File (),
      [''data'', ''images'', ''raw'', ''c.png''] \<mapsto> File (),
      [''data'', ''labels''] \<mapsto> Dir,
      [''data'', ''labels'', ''val''] \<mapsto> Dir,
      [''data'', ''labels'', ''val'', ''b.txt''] \<mapsto> File (),
      [''data'', ''labels'', ''val'', ''c.txt''] \<mapsto> File (),
      [''data'', ''labels'', ''val'', ''d.txt''] \<mapsto> File ()]"

definition paired_images :: "path list" where
  "paired_images =
     [[''data'', ''images'', ''raw'', ''a.jpg''],
      [''data'', ''images'', ''raw'', ''b.jpg''],
      [''data'', ''images'', ''raw'', ''c.png'']]"

definition paired_labels :: "path list" where
  "paired_labels =
     [[''data'', ''labels'', ''val'', ''b.txt''],
      [''data'', ''labels'', ''val'', ''c.txt''],
      [''data'', ''labels'', ''val'', ''d.txt'']]"

definition matched_data :: "unit filesystem" where
  "matched_data =
     [[''data''] \<mapsto> Dir,
      [''data'', ''images''] \<mapsto> Dir,
      [''data'', ''images'', ''raw''] \<mapsto> Dir,
      [''data'', ''images'', ''raw'', ''a.jpg''] \<mapsto> File (),
      [''data'', ''labels''] \<mapsto> Dir,
      [''data'', ''labels'', ''val''] \<mapsto> Dir,
      [''data'', ''labels'', ''val'', ''a.txt''] \<mapsto> File ()]"

text \<open>A data root in which nothing is staged yet, and one whose \<^verbatim>\<open>raw\<close> directory holds a
  link left by an earlier staging from a source that is gone, next to a new source with a
  file of the same name.\<close>

definition unstaged_data :: "unit filesystem" where
  "unstaged_data = [[''data''] \<mapsto> Dir]"

definition stale_link_data :: "unit filesystem" where
  "stale_link_data =
     [[''data''] \<mapsto> Dir,
      [''data'', ''images''] \<mapsto> Dir,
      [''data'', ''images'', ''raw''] \<mapsto> Dir,
      [''data'', ''images'', ''raw'', ''a.jpg''] \<mapsto> Symlink [''old'', ''a.jpg''],
      [''src''] \<mapsto> Dir,
      [''src'', ''a.jpg''] \<mapsto> File ()]"




section \<open>Facts about the file system\<close>

lemma follow_upd_plain:
  assumes "\<forall>t. node_at fs q \<noteq> Some (Symlink t)" and "\<forall>t. x \<noteq> Symlink t" and "q \<noteq> []"
  shows "follow n (fs(q \<mapsto> x)) p = follow n fs p"
proof (induction n arbitrary: p)
  case 0
  show ?case by simp
next
  case (Suc n)
  show ?case
  proof (cases "p = q")
    case True
    with assms show ?thesis
      by (cases "node_at fs q"; cases x) (auto simp: node_at_def split: node.splits)
  next
    case False
    then have h: "node_at (fs(q \<mapsto> x)) p = node_at fs p"
      by (simp add: node_at_def)
    show ?thesis
    proof (cases "node_at fs p")
      case None
      then show ?thesis
        by (simp only: follow.simps h option.case)
    next
      case (Some a)
      then show ?thesis
        by (cases a) (simp_all only: follow.simps h option.case node.case Suc.IH)
    qed
  qed
qed

lemma resolve_not_link:
  "follow n fs p = Some q \<Longrightarrow> node_at fs q \<noteq> Some (Symlink t)"
  by (induction n arbitrary: p) (auto split: option.splits node.splits)

lemma stat_upd_plain:
  assumes "\<forall>t. node_at fs q \<noteq> Some (Symlink t)" and "\<forall>t. x \<noteq> Symlink t" and "q \<noteq> []"
  shows "stat (fs(q \<mapsto> x)) p = (if resolve fs p = Some q then Some x else stat fs p)"
proof -
  have r: "resolve (fs(q \<mapsto> x)) p = resolve fs p"
    unfolding resolve_def by (rule follow_upd_plain [OF assms])
  show ?thesis
  proof (cases "resolve fs p")
    case None
    then show ?thesis by (simp add: stat_def r)
  next
    case (Some r')
    with assms(3) show ?thesis
      by (auto simp: stat_def r node_at_def)
  qed
qed

lemma stat_created_dir:
  assumes "p \<noteq> []"
  shows "stat (fs(p \<mapsto> Dir)) p = Some Dir"
  using assms by (simp add: stat_def resolve_def node_at_def)

lemma mkdir_parents_is_dir:
  assumes "mkdir_parents fs p = Inr fs'"
  shows "is_dir fs' p"
proof (cases "node_at fs p \<noteq> None")
  case True
  with assms show ?thesis
    by (subst (asm) mkdir_parents.simps) (simp split: if_splits)
next
  case False
  then have p: "p \<noteq> []"
    by (auto simp: node_at_def)
  from assms False obtain fs1 where "fs' = fs1(p \<mapsto> Dir)"
    by (subst (asm) mkdir_parents.simps) (auto split: if_splits sum.splits)
  then show ?thesis
    by (simp add: is_dir_def stat_created_dir [OF p])
qed

lemma write_file_Inr:
  assumes "write_file fs p c = Inr fs'"
  obtains q where "resolve fs p = Some q" and "q \<noteq> []"
    and "\<forall>t. node_at fs q \<noteq> Some (Symlink t)" and "node_at fs q \<noteq> Some Dir"
    and "fs' = fs(q \<mapsto> File c)"
proof -
  from assms obtain q where q: "resolve fs p = Some q"
    by (cases "resolve fs p") (simp_all add: write_file_def)
  then have nl: "\<forall>t. node_at fs q \<noteq> Some (Symlink t)"
    unfolding resolve_def by (blast dest: resolve_not_link)
  from assms q have nd: "node_at fs q \<noteq> Some Dir" and fs': "fs' = fs(q \<mapsto> File c)"
    by (auto simp: write_file_def split: option.splits node.splits if_splits)
  from nd have "q \<noteq> []"
    by (auto simp: node_at_def)
  then show ?thesis
    by (rule that [OF q _ nl nd fs'])
qed

lemma write_file_stat:
  assumes "write_file fs p c = Inr fs'"
  shows "stat fs' p = Some (File c)"
proof -
  from assms obtain q where q: "resolve fs p = Some q" "q \<noteq> []"
    "\<forall>t. node_at fs q \<noteq> Some (Symlink t)" "node_at fs q \<noteq> Some Dir" "fs' = fs(q \<mapsto> File c)"
    by (rule write_file_Inr)
  have "stat fs' p = (if resolve fs p = Some q then Some (File c) else stat fs p)"
    unfolding q(5) by (rule stat_upd_plain [OF q(3) _ q(2)]) simp
  then show ?thesis
    by (simp add: q(1))
qed

lemma write_file_is_dir:
  assumes "write_file fs p c = Inr fs'"
  shows "is_dir fs' r = is_dir fs r"
proof -
  from assms obtain q where q: "resolve fs p = Some q" "q \<noteq> []"
    "\<forall>t. node_at fs q \<noteq> Some (Symlink t)" "node_at fs q \<noteq> Some Dir" "fs' = fs(q \<mapsto> File c)"
    by (rule write_file_Inr)
  have s: "stat fs' r = (if resolve fs r = Some q then Some (File c) else stat fs r)"
    unfolding q(5) by (rule stat_upd_plain [OF q(3) _ q(2)]) simp
  show ?thesis
  proof (cases "resolve fs r = Some q")
    case True
    then have "stat fs r = node_at fs q"
      by (simp add: stat_def)
    with q(4) s True show ?thesis
      by (simp add: is_dir_def)
  next
    case False
    then show ?thesis
      by (simp add: is_dir_def s)
  qed
qed

section \<open>Properties of the metrics calculator\<close>

subsection \<open>The F1 score\<close>

lemma round_half_even_of_int: "round_half_even (of_int n) = n"
  by (simp add: round_half_even_def)

lemma round_half_even_half: "round_half_even (1/2) = 0"
proof -
  have "\<lfloor>1/2 :: real\<rfloor> = 0" by simp
  then show ?thesis
    by (simp add: round_half_even_def Let_def)
qed

lemma log2_powr: "log 2 (2 powr y) = (y::real)"
  by (simp add: log_powr_cancel)

lemma exponent_power_of_two:
  "binary64_exponent (2 powr of_int k) = max k (- 1022)"
  by (simp add: binary64_exponent_def log2_powr)

lemma powr_nat: "(2::real) powr real n = 2 ^ n"
  by (simp add: powr_realpow)

lemma binary64_power_of_two:
  assumes "- 1074 \<le> k"
  shows "binary64 (2 powr of_int k) = 2 powr of_int k"
proof -
  define e where "e = max k (- 1022)"
  define n where "n = nat (k - (e - 52))"
  have n: "int n = k - (e - 52)"
    using assms by (simp add: n_def e_def)
  have "(2::real) powr of_int k / 2 powr (of_int e - 52) = 2 powr (of_int k - (of_int e - 52))"
    by (simp add: powr_diff)
  also have "of_int k - (of_int e - 52) = (real n)"
    using n by simp
  also have "(2::real) powr real n = (of_int (2 ^ n) :: real)"
    by (simp add: powr_nat)
  finally have q: "(2::real) powr of_int k / 2 powr (of_int e - 52) = of_int (2 ^ n)" .
  have "binary64 (2 powr of_int k) = of_int (2 ^ n) * 2 powr (of_int e - 52)"
    by (simp add: binary64_def exponent_power_of_two e_def [symmetric] q
        round_half_even_of_int del: of_int_power)
  also have "\<dots> = 2 powr real n * 2 powr (of_int e - 52)"
    by (simp add: powr_nat)
  also have "\<dots> = 2 powr (real n + (of_int e - 52))"
    by (simp add: powr_add)
  also have "real n + (of_int e - 52) = (of_int k :: real)"
    using n by simp
  finally show ?thesis .
qed


lemma round_half_even_ge: "of_int n \<le> y \<Longrightarrow> n \<le> round_half_even y"
proof -
  assume "of_int n \<le> y"
  then have "n \<le> \<lfloor>y\<rfloor>"
    by (simp add: le_floor_iff)
  then show ?thesis
    by (simp add: round_half_even_def Let_def)
qed

lemma round_half_even_le: "y \<le> of_int n \<Longrightarrow> round_half_even y \<le> n"
proof -
  assume y: "y \<le> of_int n"
  then have f: "\<lfloor>y\<rfloor> \<le> n"
    by (simp add: floor_le_iff)
  have "\<lfloor>y\<rfloor> + 1 \<le> n" if "1 / 2 \<le> y - of_int \<lfloor>y\<rfloor>"
  proof -
    have "of_int \<lfloor>y\<rfloor> < (of_int n :: real)"
      using that y by linarith
    then show ?thesis
      by simp
  qed
  with f show ?thesis
    by (auto simp add: round_half_even_def Let_def)
qed

lemma exponent_normal:
  assumes "2 powr (- 1022) \<le> x"
  shows "binary64_exponent x = \<lfloor>log 2 x\<rfloor>"
    and "2 powr of_int \<lfloor>log 2 x\<rfloor> \<le> x"
    and "x < 2 powr (of_int \<lfloor>log 2 x\<rfloor> + 1)"
proof -
  have pos: "0 < x"
    using assms by (rule less_le_trans [rotated]) simp
  then have "- 1022 \<le> log 2 x"
    using assms by (simp add: le_log_iff)
  then have "- 1022 \<le> \<lfloor>log 2 x\<rfloor>"
    by (simp add: le_floor_iff)
  with pos show "binary64_exponent x = \<lfloor>log 2 x\<rfloor>"
    by (simp add: binary64_exponent_def)
  have "2 powr of_int \<lfloor>log 2 x\<rfloor> \<le> 2 powr log 2 x"
    by (rule powr_mono) simp_all
  with pos show "2 powr of_int \<lfloor>log 2 x\<rfloor> \<le> x"
    by simp
  have "2 powr log 2 x < 2 powr (of_int \<lfloor>log 2 x\<rfloor> + 1)"
    by (rule powr_less_mono) simp_all
  with pos show "x < 2 powr (of_int \<lfloor>log 2 x\<rfloor> + 1)"
    by simp
qed

lemma binary64_double:
  assumes "2 powr (- 1022) \<le> x"
  shows "binary64 (2 * x) = 2 * binary64 x"
proof -
  have pos: "0 < x"
    using assms by (rule less_le_trans [rotated]) simp
  have "2 powr (- 1022) \<le> 2 * x"
    using assms pos by linarith
  note e2 = exponent_normal(1) [OF this] and e = exponent_normal(1) [OF assms]
  have "log 2 (2 * x) = 1 + log 2 x"
    using pos by (simp add: log_mult)
  then have l: "\<lfloor>log 2 (2 * x)\<rfloor> = \<lfloor>log 2 x\<rfloor> + 1"
    by simp
  have u: "(2::real) powr (of_int (\<lfloor>log 2 x\<rfloor> + 1) - 52) = 2 * 2 powr (of_int \<lfloor>log 2 x\<rfloor> - 52)"
    by (simp add: powr_diff powr_add)
  show ?thesis
    using pos by (simp add: binary64_def Let_def e2 e l u del: of_int_add)
qed

lemma binary64_scaled:
  assumes "y \<noteq> 0" and "binary64_exponent y = e" and "y = of_int m * 2 powr (of_int e - 52)"
  shows "binary64 y = y"
proof -
  have "y / 2 powr (of_int e - 52) = of_int m"
    by (simp add: assms(3))
  then show ?thesis
    using assms by (simp add: binary64_def Let_def round_half_even_of_int)
qed

lemma binary64_normal_bounds:
  assumes "2 powr (- 1022) \<le> x"
  shows "2 powr of_int \<lfloor>log 2 x\<rfloor> \<le> binary64 x"
    and "binary64 x \<le> 2 powr (of_int \<lfloor>log 2 x\<rfloor> + 1)"
    and "binary64 (binary64 x) = binary64 x"
    and "2 powr (- 1022) \<le> binary64 x"
proof -
  define e where "e = \<lfloor>log 2 x\<rfloor>"
  define u :: real where "u = 2 powr (of_int e - 52)"
  define m where "m = round_half_even (x / u)"
  have pos: "0 < x"
    using assms by (rule less_le_trans [rotated]) simp
  have upos: "0 < u"
    by (simp add: u_def)
  have ex: "binary64_exponent x = e"
    using exponent_normal(1) [OF assms] by (simp add: e_def)
  have lo: "2 powr of_int e \<le> x" and hi: "x < 2 powr (of_int e + 1)"
    using exponent_normal(2,3) [OF assms] by (simp_all add: e_def)
  have b: "binary64 x = of_int m * u"
    using pos by (simp add: binary64_def Let_def ex u_def m_def)
  have p52: "(2::real) powr of_int e = of_int (2 ^ 52) * u"
    by (simp add: u_def powr_diff)
  have p53: "(2::real) powr (of_int e + 1) = of_int (2 ^ 53) * u"
    by (simp add: u_def powr_diff powr_add)
  have "of_int (2 ^ 52) \<le> x / u"
    using lo upos by (simp add: p52 pos_le_divide_eq del: of_int_power of_int_numeral)
  then have m52: "2 ^ 52 \<le> m"
    unfolding m_def by (rule round_half_even_ge)
  have "x / u \<le> of_int (2 ^ 53)"
    using hi upos by (simp add: p53 pos_divide_le_eq del: of_int_power of_int_numeral)
  then have m53: "m \<le> 2 ^ 53"
    unfolding m_def by (rule round_half_even_le)
  have "(of_int (2 ^ 52) :: real) \<le> of_int m"
    using m52 by (simp only: of_int_le_iff)
  then show l: "2 powr of_int e \<le> binary64 x"
    unfolding b p52 using upos by (simp only: mult_le_cancel_right_pos)
  have "(of_int m :: real) \<le> of_int (2 ^ 53)"
    using m53 by (simp only: of_int_le_iff)
  then show "binary64 x \<le> 2 powr (of_int e + 1)"
    unfolding b p53 using upos by (simp only: mult_le_cancel_right_pos)
  show "binary64 (binary64 x) = binary64 x"
  proof (cases "m = 2 ^ 53")
    case True
    then have "binary64 x = 2 powr of_int (e + 1)"
      using b p53 by simp
    moreover have "- 1074 \<le> e + 1"
      using ex by (simp add: binary64_exponent_def)
    ultimately show ?thesis
      by (simp only: binary64_power_of_two)
  next
    case False
    with m53 have "m < 2 ^ 53"
      by simp
    then have "(of_int m :: real) < of_int (2 ^ 53)"
      by (simp only: of_int_less_iff)
    then have h: "binary64 x < 2 powr (of_int e + 1)"
      unfolding b p53 using upos by (simp only: mult_less_cancel_right_pos)
    have bpos: "0 < binary64 x"
      using l by (rule less_le_trans [rotated]) simp
    have "\<lfloor>log 2 (binary64 x)\<rfloor> = e"
      using l h bpos by (simp add: floor_log_eq_powr_iff)
    moreover have "- 1022 \<le> e"
      using ex by (simp add: binary64_exponent_def)
    ultimately have be: "binary64_exponent (binary64 x) = e"
      using bpos by (simp add: binary64_exponent_def)
    have nz: "binary64 x \<noteq> 0"
      using bpos by simp
    have "binary64 x = of_int m * 2 powr (of_int e - 52)"
      using b by (simp only: u_def)
    with nz be show ?thesis
      by (rule binary64_scaled)
  qed
  have "- 1022 \<le> e"
    using ex by (simp add: binary64_exponent_def)
  then have "(2::real) powr (- 1022) \<le> 2 powr of_int e"
    by (intro powr_mono) simp_all
  with l show "2 powr (- 1022) \<le> binary64 x"
    by (rule order_trans [rotated])
qed


lemma is_binary64_positive:
  assumes "is_binary64 p" and "0 < p"
  shows "2 powr (- 1074) \<le> p"
proof -
  define u :: real where "u = 2 powr (of_int (binary64_exponent p) - 52)"
  define m where "m = round_half_even (p / u)"
  have p: "p = of_int m * u"
    using assms by (simp add: is_binary64_def binary64_def Let_def u_def m_def)
  have upos: "0 < u"
    by (simp add: u_def)
  from assms(2) p upos have "0 < (of_int m :: real)"
    by (simp add: zero_less_mult_iff)
  then have "1 \<le> m"
    by simp
  then have "(1::real) \<le> of_int m"
    by simp
  then have "1 * u \<le> of_int m * u"
    using upos by (simp only: mult_le_cancel_right_pos)
  then have "u \<le> p"
    using p by simp
  moreover have "2 powr (- 1074) \<le> u"
    unfolding u_def by (rule powr_mono) (simp_all add: binary64_exponent_def)
  ultimately show ?thesis
    by simp
qed

lemma binary64_positive:
  assumes "2 powr (- 1074) \<le> x"
  shows "0 < binary64 x"
proof (cases "2 powr (- 1022) \<le> x")
  case True
  show ?thesis
    using binary64_normal_bounds(4) [OF True] by (rule less_le_trans [rotated]) simp
next
  case False
  have pos: "0 < x"
    using assms by (rule less_le_trans [rotated]) simp
  from False pos have "log 2 x < - 1022"
    by (simp add: log_less_iff)
  then have "\<lfloor>log 2 x\<rfloor> \<le> - 1022"
    by (simp add: floor_le_iff)
  then have ex: "binary64_exponent x = - 1022"
    using pos by (simp add: binary64_exponent_def)
  have "of_int 1 \<le> x / 2 powr (- 1074)"
    using assms by (simp add: pos_le_divide_eq)
  then have "1 \<le> round_half_even (x / 2 powr (- 1074))"
    by (rule round_half_even_ge)
  then have "0 < (of_int (round_half_even (x / 2 powr (- 1074))) :: real)"
    by simp
  then show ?thesis
    using pos by (simp add: binary64_def Let_def ex)
qed

lemma float_add_zero_iff:
  assumes "is_binary64 p" and "is_binary64 r" and "0 \<le> p" and "0 \<le> r"
  shows "float_add p r = 0 \<longleftrightarrow> p = 0 \<and> r = 0"
proof
  assume z: "float_add p r = 0"
  have "0 < binary64 (p + r)" if "0 < p \<or> 0 < r"
  proof -
    from that assms have "2 powr (- 1074) \<le> p \<or> 2 powr (- 1074) \<le> r"
      using is_binary64_positive by blast
    with assms(3,4) have "2 powr (- 1074) \<le> p + r"
      by linarith
    then show ?thesis
      by (rule binary64_positive)
  qed
  with z have "\<not> (0 < p \<or> 0 < r)"
    by (auto simp add: float_add_def)
  with assms(3,4) show "p = 0 \<and> r = 0"
    by linarith
next
  assume "p = 0 \<and> r = 0"
  then show "float_add p r = 0"
    by (simp add: float_add_def binary64_def)
qed

lemma f1_without_underflow:
  assumes p: "is_binary64 p" and "0 \<le> p" and "p \<le> 1" and "0 \<le> r" and "r \<le> 1"
    and n: "2 powr (- 1022) \<le> p * r"
  shows "calculate_f1_score_float p r = claimed_f1 p r"
proof -
  have "p * r \<le> p * 1"
    using assms by (intro mult_left_mono) simp_all
  with n have pn: "2 powr (- 1022) \<le> p"
    by simp
  have "binary64 (2 * p) = 2 * p"
    using binary64_double [OF pn] p by (simp add: is_binary64_def)
  then have c: "float_mul (float_mul 2 p) r = 2 * binary64 (p * r)"
    using binary64_double [OF n] by (simp add: float_mul_def mult.assoc)
  have "binary64 (2 * binary64 (p * r)) = 2 * binary64 (binary64 (p * r))"
    by (rule binary64_double) (rule binary64_normal_bounds(4) [OF n])
  then have d: "float_mul 2 (float_mul p r) = 2 * binary64 (p * r)"
    by (simp add: float_mul_def binary64_normal_bounds(3) [OF n])
  have "2 powr (- 1074) \<le> (2::real) powr (- 1022)"
    by (rule powr_mono) simp_all
  with pn assms(4) have "2 powr (- 1074) \<le> p + r"
    by linarith
  then have "float_add p r \<noteq> 0"
    using binary64_positive [of "p + r"] by (simp add: float_add_def)
  then show ?thesis
    by (simp add: calculate_f1_score_float_def claimed_f1_def c d)
qed

lemma f1_zero_product:
  assumes "p * r = 0"
  shows "calculate_f1_score_float p r = claimed_f1 p r"
proof -
  have "float_mul 2 (float_mul p r) = 0"
    using assms by (simp add: float_mul_def binary64_def)
  moreover have "float_mul (float_mul 2 p) r = 0"
    using assms by (auto simp add: float_mul_def binary64_def)
  ultimately show ?thesis
    by (simp add: calculate_f1_score_float_def claimed_f1_def)
qed

lemma binary64_examples:
  "binary64 0 = 0" "binary64 1 = 1" "binary64 2 = 2" "binary64 (1 / 2) = 1 / 2"
  "binary64 (1 / 4) = 1 / 4"
  using binary64_power_of_two [of 0] binary64_power_of_two [of 1]
    binary64_power_of_two [of "- 1"] binary64_power_of_two [of "- 2"]
  by (simp_all add: binary64_def powr_minus divide_simps)

lemma round_half_even_near:
  assumes "0 \<le> d" and "d < 1 / 2"
  shows "round_half_even (of_int n + d) = n"
proof -
  have "\<lfloor>of_int n + d\<rfloor> = n"
    using assms by (intro floor_unique) simp_all
  then show ?thesis
    using assms by (simp add: round_half_even_def Let_def)
qed

lemma smallest_subnormal_bounds:
  "0 < smallest_subnormal" "smallest_subnormal \<le> 1 / 4"
proof -
  show "0 < smallest_subnormal"
    by (simp add: smallest_subnormal_def)
  have "(2::real) powr (- 1074) \<le> 2 powr (- 2)"
    by (rule powr_mono) simp_all
  then show "smallest_subnormal \<le> 1 / 4"
    by (simp add: smallest_subnormal_def powr_minus)
qed

lemma smallest_subnormal_binary64:
  "binary64 smallest_subnormal = smallest_subnormal"
  "binary64 (2 * smallest_subnormal) = 2 * smallest_subnormal"
proof -
  show "binary64 smallest_subnormal = smallest_subnormal"
    using binary64_power_of_two [of "- 1074"] by (simp add: smallest_subnormal_def)
  have "2 * smallest_subnormal = 2 powr of_int (- 1073)"
    using powr_add [of "2::real" 1 "- 1074"] by (simp add: smallest_subnormal_def)
  then show "binary64 (2 * smallest_subnormal) = 2 * smallest_subnormal"
    using binary64_power_of_two [of "- 1073"] by simp
qed

lemma smallest_subnormal_half:
  "binary64 (smallest_subnormal * (1 / 2)) = 0"
proof -
  have h: "smallest_subnormal * (1 / 2) = 2 powr of_int (- 1075)"
    using powr_add [of "2::real" "- 1074" "- 1"]
    by (simp add: smallest_subnormal_def powr_minus)
  have "(2::real) powr (- 1075) / 2 powr (- 1074) = 2 powr (- 1075 - (- 1074))"
    by (simp only: powr_diff)
  then have q: "(2::real) powr (- 1075) / 2 powr (- 1074) = 1 / 2"
    by (simp add: powr_minus)
  show ?thesis
    unfolding h using exponent_power_of_two [of "- 1075"] q
    by (simp add: binary64_def Let_def round_half_even_half)
qed

lemma smallest_subnormal_absorbed:
  "binary64 (smallest_subnormal + 1 / 2) = 1 / 2"
proof -
  define x where "x = smallest_subnormal + 1 / 2"
  have pos: "0 < x" and lo: "1 / 2 \<le> x" and hi: "x < 1"
    using smallest_subnormal_bounds by (simp_all add: x_def)
  then have "\<lfloor>log 2 x\<rfloor> = - 1"
    by (simp add: floor_log_eq_powr_iff powr_minus)
  then have ex: "binary64_exponent x = - 1"
    using pos by (simp add: binary64_exponent_def)
  define d :: real where "d = 2 powr (- 1021)"
  have d: "0 \<le> d" "d < 1 / 2"
  proof -
    show "0 \<le> d"
      by (simp add: d_def)
    have "(2::real) powr (- 1021) \<le> 2 powr (- 2)"
      by (rule powr_mono) simp_all
    then show "d < 1 / 2"
      by (simp add: d_def powr_minus)
  qed
  have "smallest_subnormal / 2 powr (- 53) = 2 powr (- 1074 - (- 53))"
    unfolding smallest_subnormal_def by (simp only: powr_diff)
  then have 1: "smallest_subnormal / 2 powr (- 53) = d"
    by (simp add: d_def)
  have "(1 / 2) / 2 powr (- 53) = (2::real) powr (- 1 - (- 53))"
    by (simp add: powr_diff powr_minus)
  also have "\<dots> = 2 powr real 52"
    by simp
  also have "\<dots> = of_int (2 ^ 52)"
    by (simp add: powr_realpow)
  finally have 2: "(1 / 2) / 2 powr (- 53) = (of_int (2 ^ 52) :: real)" .
  have "x / 2 powr (- 53) = of_int (2 ^ 52) + d"
    unfolding x_def add_divide_distrib 1 2 by simp
  then have "round_half_even (x / 2 powr (- 53)) = 2 ^ 52"
    using round_half_even_near [OF d, of "2 ^ 52"] by simp
  moreover have "of_int (2 ^ 52) * 2 powr (- 53) = (1 / 2 :: real)"
    using 2 by (simp add: field_simps)
  ultimately have "binary64 x = 1 / 2"
    using pos by (simp add: binary64_def Let_def ex)
  then show ?thesis
    by (simp add: x_def)
qed


text \<open>
  C2 (as amended). For all binary64 precision \<open>p\<close> and recall \<open>r\<close> in \<open>[0, 1]\<close>,
  \<open>calculate_f1_score\<close> raises nothing; it returns \<open>0.0\<close> if \<^verbatim>\<open>p + r == 0\<close>, which is so exactly
  when both are zero, and \<^verbatim>\<open>2 * (p * r) / (p + r)\<close> otherwise, every operation rounded to
  binary64 in that order. The value is the one of the formula \<^verbatim>\<open>2*p*r/(p+r)\<close>, read left to
  right, whenever the product \<open>p * r\<close> is zero or at least \<open>2 powr - 1022\<close>, so that it does
  not underflow. The function is symmetric in its two arguments, and
  \<^verbatim>\<open>calculate_f1_score(1, 1) == 1\<close>.
\<close>

theorem f1_score_binary64:
  assumes "is_binary64 p" and "is_binary64 r"
    and "0 \<le> p" and "p \<le> 1" and "0 \<le> r" and "r \<le> 1"
  shows "calculate_f1_score_float p r
           = Inr (if float_add p r = 0 then 0
                  else binary64 (float_mul 2 (float_mul p r) / float_add p r))
    \<and> (float_add p r = 0 \<longleftrightarrow> p = 0 \<and> r = 0)
    \<and> (p * r = 0 \<or> 2 powr (- 1022) \<le> p * r \<longrightarrow>
          calculate_f1_score_float p r = claimed_f1 p r)
    \<and> calculate_f1_score_float p r = calculate_f1_score_float r p
    \<and> calculate_f1_score_float 1 1 = Inr 1"
proof (intro conjI impI)
  show "calculate_f1_score_float p r
           = Inr (if float_add p r = 0 then 0
                  else binary64 (float_mul 2 (float_mul p r) / float_add p r))"
    by (simp add: calculate_f1_score_float_def float_div_def)
  show "float_add p r = 0 \<longleftrightarrow> p = 0 \<and> r = 0"
    using assms(1,2,3,5) by (rule float_add_zero_iff)
  show "calculate_f1_score_float p r = claimed_f1 p r"
    if "p * r = 0 \<or> 2 powr (- 1022) \<le> p * r"
    using that f1_zero_product [of p r] f1_without_underflow [OF assms(1,3,4,5,6)]
    by blast
  show "calculate_f1_score_float p r = calculate_f1_score_float r p"
    by (simp add: calculate_f1_score_float_def float_add_def float_mul_def
        add.commute mult.commute)
  show "calculate_f1_score_float 1 1 = Inr 1"
    by (simp add: calculate_f1_score_float_def float_add_def float_mul_def float_div_def
        binary64_examples)
qed

theorem f1_score_binary64_witness:
  "is_binary64 (1 / 2) \<and> 2 powr (- 1022) \<le> (1 / 2 :: real) * (1 / 2)
   \<and> calculate_f1_score_float (1 / 2) (1 / 2) = Inr (1 / 2)
   \<and> claimed_f1 (1 / 2) (1 / 2) = Inr (1 / 2)
   \<and> calculate_f1_score_float 1 1 = Inr 1"
proof -
  have b: "is_binary64 (1 / 2)"
    by (simp add: is_binary64_def binary64_examples)
  have "(2::real) powr (- 1022) \<le> 2 powr (- 2)"
    by (rule powr_mono) simp_all
  then have n: "2 powr (- 1022) \<le> (1 / 2 :: real) * (1 / 2)"
    by (simp add: powr_minus)
  have a: "float_add (1 / 2) (1 / 2) = 1"
    by (simp add: float_add_def binary64_examples)
  have m: "float_mul 2 (float_mul (1 / 2) (1 / 2)) = 1 / 2"
    by (simp add: float_mul_def binary64_examples)
  have h: "(0::real) \<le> 1 / 2" "(1 / 2 :: real) \<le> 1"
    by simp_all
  note t = f1_score_binary64 [OF b b h h]
  from t have "calculate_f1_score_float (1 / 2) (1 / 2)
      = Inr (if float_add (1 / 2) (1 / 2) = 0 then 0
             else binary64 (float_mul 2 (float_mul (1 / 2) (1 / 2)) / float_add (1 / 2) (1 / 2)))"
    by (rule conjunct1)
  then have 1: "calculate_f1_score_float (1 / 2) (1 / 2) = Inr (1 / 2)"
    by (simp add: a m binary64_examples)
  from t n have "calculate_f1_score_float (1 / 2) (1 / 2) = claimed_f1 (1 / 2) (1 / 2)"
    by blast
  with 1 have 2: "claimed_f1 (1 / 2) (1 / 2) = Inr (1 / 2)"
    by simp
  from t have "calculate_f1_score_float 1 1 = Inr 1"
    by blast
  with b n 1 2 show ?thesis
    by (intro conjI)
qed

text \<open>
  C2 as stated fails where the product underflows. At \<^verbatim>\<open>p = 5e-324\<close>, the smallest
  positive float, and \<^verbatim>\<open>r = 0.5\<close>, the product \<open>p * r\<close> is rounded to zero before it is
  doubled, so \<open>calculate_f1_score\<close> returns \<open>0.0\<close> although \<^verbatim>\<open>p + r\<close> is not zero, while
  \<^verbatim>\<open>2*p*r/(p+r)\<close> doubles first and is \<^verbatim>\<open>1e-323\<close>.
\<close>

theorem f1_score_underflow_counterexample:
  "is_binary64 smallest_subnormal \<and> is_binary64 (1 / 2)
   \<and> 0 \<le> smallest_subnormal \<and> smallest_subnormal \<le> 1
   \<and> float_add smallest_subnormal (1 / 2) \<noteq> 0
   \<and> calculate_f1_score_float smallest_subnormal (1 / 2) = Inr 0
   \<and> claimed_f1 smallest_subnormal (1 / 2) = Inr (2 * smallest_subnormal)
   \<and> 2 * smallest_subnormal \<noteq> 0"
proof -
  note s = smallest_subnormal_bounds
  have a: "float_add smallest_subnormal (1 / 2) = 1 / 2"
    by (simp add: float_add_def smallest_subnormal_absorbed)
  have m: "float_mul 2 (float_mul smallest_subnormal (1 / 2)) = 0"
    by (simp only: float_mul_def smallest_subnormal_half) (simp add: binary64_examples)
  have "float_mul 2 smallest_subnormal * (1 / 2) = smallest_subnormal"
    by (simp add: float_mul_def smallest_subnormal_binary64)
  then have c: "float_mul (float_mul 2 smallest_subnormal) (1 / 2) = smallest_subnormal"
    by (simp only: float_mul_def [of _ "1 / 2"] smallest_subnormal_binary64)
  have "calculate_f1_score_float smallest_subnormal (1 / 2) = Inr 0"
    by (simp add: calculate_f1_score_float_def a m float_div_def binary64_examples)
  moreover have "binary64 (smallest_subnormal / (1 / 2)) = 2 * smallest_subnormal"
    using smallest_subnormal_binary64(2) by (simp add: mult.commute)
  then have "claimed_f1 smallest_subnormal (1 / 2) = Inr (2 * smallest_subnormal)"
    by (simp only: claimed_f1_def a c float_div_def) simp
  moreover have "is_binary64 smallest_subnormal" "is_binary64 (1 / 2)"
    by (simp_all add: is_binary64_def smallest_subnormal_binary64 binary64_examples)
  ultimately show ?thesis
    using s a by simp
qed

subsection \<open>Extraction\<close>

lemma bind_exn_InrE:
  assumes "bind_exn m f = Inr y"
  obtains x where "m = Inr x" and "f x = Inr y"
  using assms by (cases m) (simp_all add: bind_exn_def)

lemma bind_exn_InlE:
  assumes "bind_exn m f = Inl e"
  obtains "m = Inl e" | x where "m = Inr x" and "f x = Inl e"
  using assms by (cases m) (simp_all add: bind_exn_def)

lemma float_attr_Inl:
  assumes "float_attr obj attr = Inl e"
  shows "e = AttributeError \<or> e = TypeError \<or> e = ValueError \<or> box obj = Raising e
    \<or> (\<exists>b. box obj = Present b \<and> attr b = Raising e)"
proof (cases "box obj")
  case Absent
  with assms show ?thesis by (simp add: float_attr_def bind_exn_def)
next
  case (Raising x)
  with assms show ?thesis by (simp add: float_attr_def bind_exn_def)
next
  case (Present b)
  show ?thesis
  proof (cases "attr b")
    case Absent
    with assms Present show ?thesis by (simp add: float_attr_def bind_exn_def)
  next
    case (Raising x)
    with assms Present show ?thesis by (simp add: float_attr_def bind_exn_def)
  next
    case inner: (Present v)
    with assms Present show ?thesis
      by (cases v) (simp_all add: float_attr_def bind_exn_def)
  qed
qed

lemma float_attr_or_zero_Inl:
  assumes "float_attr_or_zero obj attr = Inl e"
  shows "e = AttributeError \<or> e = TypeError \<or> e = ValueError \<or> box obj = Raising e
    \<or> (\<exists>b. box obj = Present b \<and> attr b = Raising e)"
proof (cases "box obj")
  case Absent
  with assms show ?thesis by (simp add: float_attr_or_zero_def bind_exn_def)
next
  case (Raising x)
  with assms show ?thesis by (simp add: float_attr_or_zero_def bind_exn_def)
next
  case (Present b)
  show ?thesis
  proof (cases "attr b")
    case Absent
    with assms Present show ?thesis by (simp add: float_attr_or_zero_def bind_exn_def)
  next
    case (Raising x)
    with assms Present show ?thesis
      by (simp add: float_attr_or_zero_def bind_exn_def split: if_splits)
  next
    case inner: (Present v)
    with assms Present have "float_attr obj attr = Inl e"
      by (simp add: float_attr_or_zero_def bind_exn_def)
    then show ?thesis by (rule float_attr_Inl)
  qed
qed

lemma raised_is_exception:
  assumes "raises_only_exceptions obj"
    and "\<And>b. box obj = Present b \<Longrightarrow> attribute_ordinary (attr b)"
    and "e = AttributeError \<or> e = TypeError \<or> e = ValueError \<or> box obj = Raising e
      \<or> (\<exists>b. box obj = Present b \<and> attr b = Raising e)"
  shows "is_exception e"
  using assms by (auto simp: raises_only_exceptions_def attribute_ordinary_def)

lemma ordinary_attributes:
  assumes "raises_only_exceptions obj" and "box obj = Present b"
  shows "attribute_ordinary (box_map50 b)" "attribute_ordinary (box_map b)"
    "attribute_ordinary (box_map75 b)" "attribute_ordinary (box_mp b)"
    "attribute_ordinary (box_mr b)"
  using assms by (simp_all add: raises_only_exceptions_def)

lemma extract_try_Inl_ordinary:
  assumes ord: "raises_only_exceptions obj" and "extract_try obj = Inl e"
  shows "is_exception e"
proof -
  from assms(2) consider
      "float_attr obj box_map50 = Inl e" | "float_attr obj box_map = Inl e"
    | "float_attr_or_zero obj box_map75 = Inl e" | "float_attr_or_zero obj box_mp = Inl e"
    | "float_attr_or_zero obj box_mr = Inl e"
    unfolding extract_try_def by (elim bind_exn_InlE) simp_all
  then show ?thesis
  proof cases
    case 1
    show ?thesis
      by (rule raised_is_exception [OF ord ordinary_attributes(1) [OF ord] float_attr_Inl [OF 1]])
  next
    case 2
    show ?thesis
      by (rule raised_is_exception [OF ord ordinary_attributes(2) [OF ord] float_attr_Inl [OF 2]])
  next
    case 3
    show ?thesis
      by (rule raised_is_exception
          [OF ord ordinary_attributes(3) [OF ord] float_attr_or_zero_Inl [OF 3]])
  next
    case 4
    show ?thesis
      by (rule raised_is_exception
          [OF ord ordinary_attributes(4) [OF ord] float_attr_or_zero_Inl [OF 4]])
  next
    case 5
    show ?thesis
      by (rule raised_is_exception
          [OF ord ordinary_attributes(5) [OF ord] float_attr_or_zero_Inl [OF 5]])
  qed
qed

lemma extract_try_Inr:
  assumes "extract_try obj = Inr d"
  obtains v50 v v75 p r where
         "float_attr obj box_map50 = Inr v50" and "float_attr obj box_map = Inr v"
     and "float_attr_or_zero obj box_map75 = Inr v75"
     and "float_attr_or_zero obj box_mp = Inr p"
     and "float_attr_or_zero obj box_mr = Inr r"
     and "d = [''mAP@0.5'' \<mapsto> v50, ''mAP@0.5:0.95'' \<mapsto> v, ''mAP@0.75'' \<mapsto> v75,
               ''precision'' \<mapsto> p, ''recall'' \<mapsto> r]"
  using assms unfolding extract_try_def
  by (elim bind_exn_InrE) (rule that, assumption+, simp only: sum.inject)

lemma float_attr_or_zero_Absent:
  assumes "box obj = Present b" and "attr b = Absent"
  shows "float_attr_or_zero obj attr = Inr 0"
  using assms by (simp add: float_attr_or_zero_def bind_exn_def)

lemma float_attr_Number:
  assumes "box obj = Present b" and "attr b = Present (Number x)"
  shows "float_attr obj attr = Inr x"
  using assms by (simp add: float_attr_def bind_exn_def)

lemma dom_five:
  "dom [''mAP@0.5'' \<mapsto> (a::real), ''mAP@0.5:0.95'' \<mapsto> b, ''mAP@0.75'' \<mapsto> c,
        ''precision'' \<mapsto> d, ''recall'' \<mapsto> e] = metric_keys"
  unfolding metric_keys_def
  by (simp only: dom_fun_upd dom_empty option.simps if_False insert_commute)

lemma dom_zero_metrics: "dom zero_metrics = metric_keys"
  unfolding zero_metrics_def by (rule dom_five)

lemma dom_extract_try: "extract_try obj = Inr d \<Longrightarrow> dom d = metric_keys"
  by (erule extract_try_Inr) (simp only: dom_five)

lemma zero_metrics_values:
  "zero_metrics ''mAP@0.75'' = Some 0" "zero_metrics ''precision'' = Some 0"
  "zero_metrics ''recall'' = Some 0"
  by (simp_all add: zero_metrics_def)

text \<open>
  C5 (as amended). For every metrics object whose properties raise nothing but instances
  of \<^verbatim>\<open>Exception\<close>, and on a console that prints the warning, \<open>extract_yolo_metrics\<close>
  raises nothing: it returns a dictionary with exactly the five keys; an absent optional
  attribute (\<^verbatim>\<open>map75\<close>, \<^verbatim>\<open>mp\<close>, \<^verbatim>\<open>mr\<close>) appears as 0; when the extraction raises, the
  result is the all-zero dictionary together with one printed warning, as it is when the
  \<^verbatim>\<open>box\<close> attribute is missing; when it does not, nothing is printed and the values are
  the ones read.
\<close>

theorem extract_yolo_metrics_catches_exceptions:
  assumes ord: "raises_only_exceptions obj"
  shows "\<exists>d msgs. extract_yolo_metrics None obj = Inr (d, msgs)
    \<and> dom d = metric_keys
    \<and> (\<forall>b. box obj = Present b \<and> box_map75 b = Absent \<longrightarrow> d ''mAP@0.75'' = Some 0)
    \<and> (\<forall>b. box obj = Present b \<and> box_mp b = Absent \<longrightarrow> d ''precision'' = Some 0)
    \<and> (\<forall>b. box obj = Present b \<and> box_mr b = Absent \<longrightarrow> d ''recall'' = Some 0)
    \<and> (\<forall>e. extract_try obj = Inl e \<longrightarrow> d = zero_metrics \<and> msgs = [ExtractionWarning e])
    \<and> (\<forall>d'. extract_try obj = Inr d' \<longrightarrow> d = d' \<and> msgs = [])
    \<and> (box obj = Absent \<longrightarrow> d = zero_metrics \<and> msgs = [ExtractionWarning AttributeError])
    \<and> (\<forall>b v50 v. box obj = Present b \<and> box_map50 b = Present (Number v50)
          \<and> box_map b = Present (Number v) \<and> box_map75 b = Absent \<and> box_mp b = Absent
          \<and> box_mr b = Absent \<longrightarrow>
          d = [''mAP@0.5'' \<mapsto> v50, ''mAP@0.5:0.95'' \<mapsto> v, ''mAP@0.75'' \<mapsto> 0,
               ''precision'' \<mapsto> 0, ''recall'' \<mapsto> 0] \<and> msgs = [])"
proof (cases "extract_try obj")
  case (Inl e)
  have ex: "is_exception e"
    by (rule extract_try_Inl_ordinary [OF ord Inl])
  have res: "extract_yolo_metrics None obj = Inr (zero_metrics, [ExtractionWarning e])"
    by (simp add: extract_yolo_metrics_def Inl ex)
  have absent: "e = AttributeError" if "box obj = Absent"
    using Inl that by (simp add: extract_try_def float_attr_def bind_exn_def)
  have readable: False
    if "box obj = Present b" "box_map50 b = Present (Number v50)"
      "box_map b = Present (Number v)" "box_map75 b = Absent" "box_mp b = Absent"
      "box_mr b = Absent" for b v50 v
    using Inl
    by (simp add: extract_try_def bind_exn_def
        float_attr_Number [where attr = box_map50, OF that(1,2)]
        float_attr_Number [where attr = box_map, OF that(1,3)]
        float_attr_or_zero_Absent [where attr = box_map75, OF that(1,4)]
        float_attr_or_zero_Absent [where attr = box_mp, OF that(1,5)]
        float_attr_or_zero_Absent [where attr = box_mr, OF that(1,6)])
  show ?thesis
  proof (intro exI [of _ zero_metrics] exI [of _ "[ExtractionWarning e]"] conjI allI impI)
    show "extract_yolo_metrics None obj = Inr (zero_metrics, [ExtractionWarning e])"
      by (rule res)
    show "dom zero_metrics = metric_keys"
      by (rule dom_zero_metrics)
  qed (use Inl absent readable in \<open>auto simp: zero_metrics_values\<close>)
next
  case (Inr d)
  from Inr obtain v50 v v75 p r where
    f: "float_attr obj box_map50 = Inr v50" "float_attr obj box_map = Inr v"
       "float_attr_or_zero obj box_map75 = Inr v75" "float_attr_or_zero obj box_mp = Inr p"
       "float_attr_or_zero obj box_mr = Inr r" and
    d: "d = [''mAP@0.5'' \<mapsto> v50, ''mAP@0.5:0.95'' \<mapsto> v, ''mAP@0.75'' \<mapsto> v75,
             ''precision'' \<mapsto> p, ''recall'' \<mapsto> r]"
    by (rule extract_try_Inr)
  have res: "extract_yolo_metrics None obj = Inr (d, [])"
    by (simp add: extract_yolo_metrics_def Inr)
  have k: "d ''mAP@0.75'' = Some v75" "d ''precision'' = Some p" "d ''recall'' = Some r"
    by (simp_all add: d)
  have present: "box obj \<noteq> Absent"
    using f(1) by (auto simp: float_attr_def bind_exn_def)
  have z75: "d ''mAP@0.75'' = Some 0" if "box obj = Present b" "box_map75 b = Absent" for b
    using f(3) float_attr_or_zero_Absent [where attr = box_map75, OF that] by (simp add: k)
  have zp: "d ''precision'' = Some 0" if "box obj = Present b" "box_mp b = Absent" for b
    using f(4) float_attr_or_zero_Absent [where attr = box_mp, OF that] by (simp add: k)
  have zr: "d ''recall'' = Some 0" if "box obj = Present b" "box_mr b = Absent" for b
    using f(5) float_attr_or_zero_Absent [where attr = box_mr, OF that] by (simp add: k)
  have readable: "d = [''mAP@0.5'' \<mapsto> v50', ''mAP@0.5:0.95'' \<mapsto> v', ''mAP@0.75'' \<mapsto> 0,
               ''precision'' \<mapsto> 0, ''recall'' \<mapsto> 0]"
    if "box obj = Present b" "box_map50 b = Present (Number v50')"
      "box_map b = Present (Number v')" "box_map75 b = Absent" "box_mp b = Absent"
      "box_mr b = Absent" for b v50' v'
  proof -
    have "v50 = v50'" "v = v'" "v75 = 0" "p = 0" "r = 0"
      using f float_attr_Number [where attr = box_map50, OF that(1,2)]
        float_attr_Number [where attr = box_map, OF that(1,3)]
        float_attr_or_zero_Absent [where attr = box_map75, OF that(1,4)]
        float_attr_or_zero_Absent [where attr = box_mp, OF that(1,5)]
        float_attr_or_zero_Absent [where attr = box_mr, OF that(1,6)]
      by simp_all
    then show ?thesis
      by (simp only: d)
  qed
  show ?thesis
  proof (intro exI [of _ d] exI [of _ "[]"] conjI allI impI)
    show "extract_yolo_metrics None obj = Inr (d, [])"
      by (rule res)
    show "dom d = metric_keys"
      by (rule dom_extract_try [OF Inr])
    show "d ''mAP@0.75'' = Some 0" if "box obj = Present b \<and> box_map75 b = Absent" for b
      using that z75 by blast
    show "d ''precision'' = Some 0" if "box obj = Present b \<and> box_mp b = Absent" for b
      using that zp by blast
    show "d ''recall'' = Some 0" if "box obj = Present b \<and> box_mr b = Absent" for b
      using that zr by blast
    show "d = [''mAP@0.5'' \<mapsto> v50', ''mAP@0.5:0.95'' \<mapsto> v', ''mAP@0.75'' \<mapsto> 0,
               ''precision'' \<mapsto> 0, ''recall'' \<mapsto> 0]"
      if "box obj = Present b \<and> box_map50 b = Present (Number v50')
          \<and> box_map b = Present (Number v') \<and> box_map75 b = Absent \<and> box_mp b = Absent
          \<and> box_mr b = Absent" for b v50' v'
      using that by (intro readable [of b]) simp_all
  qed (use Inr present in simp_all)
qed

lemma partial_obj_ordinary: "raises_only_exceptions partial_obj"
  by (simp add: raises_only_exceptions_def attribute_ordinary_def partial_obj_def)

lemma broken_obj_ordinary: "raises_only_exceptions broken_obj"
  by (simp add: raises_only_exceptions_def attribute_ordinary_def broken_obj_def)

lemma broken_obj_raises: "extract_try broken_obj = Inl TypeError"
  by (simp add: extract_try_def float_attr_def float_attr_or_zero_def broken_obj_def
      bind_exn_def)

theorem extract_yolo_metrics_catches_exceptions_witness:
  "raises_only_exceptions partial_obj
   \<and> extract_yolo_metrics None partial_obj =
       Inr ([''mAP@0.5'' \<mapsto> 1/2, ''mAP@0.5:0.95'' \<mapsto> 1/4, ''mAP@0.75'' \<mapsto> 0,
             ''precision'' \<mapsto> 0, ''recall'' \<mapsto> 3/4], [])
   \<and> raises_only_exceptions broken_obj
   \<and> extract_yolo_metrics None broken_obj = Inr (zero_metrics, [ExtractionWarning TypeError])"
proof -
  have t1: "extract_try partial_obj =
      Inr [''mAP@0.5'' \<mapsto> 1/2, ''mAP@0.5:0.95'' \<mapsto> 1/4, ''mAP@0.75'' \<mapsto> 0,
           ''precision'' \<mapsto> 0, ''recall'' \<mapsto> 3/4]"
    by (simp add: extract_try_def float_attr_def float_attr_or_zero_def partial_obj_def
        bind_exn_def)
  from extract_yolo_metrics_catches_exceptions [OF partial_obj_ordinary]
  obtain d msgs where "extract_yolo_metrics None partial_obj = Inr (d, msgs)"
    and "\<forall>d'. extract_try partial_obj = Inr d' \<longrightarrow> d = d' \<and> msgs = []"
    by (elim exE conjE) (rule that; assumption)
  with t1 have c1: "extract_yolo_metrics None partial_obj =
       Inr ([''mAP@0.5'' \<mapsto> 1/2, ''mAP@0.5:0.95'' \<mapsto> 1/4, ''mAP@0.75'' \<mapsto> 0,
             ''precision'' \<mapsto> 0, ''recall'' \<mapsto> 3/4], [])"
    by (simp only:)
  from extract_yolo_metrics_catches_exceptions [OF broken_obj_ordinary]
  obtain d msgs where "extract_yolo_metrics None broken_obj = Inr (d, msgs)"
    and "\<forall>e. extract_try broken_obj = Inl e \<longrightarrow> d = zero_metrics \<and> msgs = [ExtractionWarning e]"
    by (elim exE conjE) (rule that; assumption)
  with broken_obj_raises
  have c2: "extract_yolo_metrics None broken_obj = Inr (zero_metrics, [ExtractionWarning TypeError])"
    by (simp only:)
  from partial_obj_ordinary c1 broken_obj_ordinary c2 show ?thesis
    by (intro conjI)
qed

text \<open>
  C5 as stated fails: an interrupt raised while the \<^verbatim>\<open>box\<close> property runs is not an
  instance of \<^verbatim>\<open>Exception\<close> and leaves \<open>extract_yolo_metrics\<close>; and on a console that
  cannot encode the warning, the \<^verbatim>\<open>print\<close> of the handler raises in its turn.
\<close>

theorem extract_yolo_metrics_raises_counterexample:
  "extract_yolo_metrics None interrupted_obj = Inl KeyboardInterrupt
   \<and> extract_yolo_metrics (Some UnicodeEncodeError) \<lparr>box = Absent\<rparr> = Inl UnicodeEncodeError"
  by (simp add: extract_yolo_metrics_def extract_try_def float_attr_def interrupted_obj_def
      bind_exn_def)

subsection \<open>The comparison table\<close>

lemma stable_sort_values_contract: "sort_values_contract stable_sort_values"
proof -
  have "sorted (map (\<lambda>r. - mAP5095 r) (stable_sort_values df))" for df
    unfolding stable_sort_values_def by (rule sorted_sort_key)
  then have "sorted_desc (stable_sort_values df)" for df
    by (simp add: sorted_desc_def sorted_map)
  then show ?thesis
    by (simp add: sort_values_contract_def stable_sort_values_def)
qed

lemma create_comparison_table_Inr:
  assumes "create_comparison_table sv fs results_path names = Inr tbl"
  obtains data where "collect_rows fs results_path names = Inr data"
    and "tbl = (if data \<noteq> [] then sv data else data)"
proof -
  from assms have "bind_exn (collect_rows fs results_path names)
            (\<lambda>df. if df \<noteq> [] then Inr (sv df) else Inr df) = Inr tbl"
    by (auto simp: create_comparison_table_def split: option.splits node.splits)
  then show ?thesis
    by (elim bind_exn_InrE) (rule that, assumption, simp split: if_splits)
qed

subsection \<open>The relative-improvement report\<close>

lemma improvement_lines_filter:
  "improvement_lines b df
     = map (\<lambda>r. (Method r, improvement_of b r)) (filter (\<lambda>r. mAP5095 r \<noteq> b) df)"
  by (induction df) simp_all

lemma sorted_desc_last_least:
  assumes "sorted_desc df" and "r \<in> set df"
  shows "mAP5095 (last df) \<le> mAP5095 r"
  using assms
proof (induction df)
  case Nil
  then show ?case by simp
next
  case (Cons x xs)
  show ?case
  proof (cases "xs = []")
    case True
    with Cons.prems show ?thesis by simp
  next
    case False
    then have l: "last (x # xs) = last xs" "last xs \<in> set xs"
      by simp_all
    from Cons.prems(1) have s: "sorted_desc xs" "\<forall>y \<in> set xs. mAP5095 y \<le> mAP5095 x"
      by (simp_all add: sorted_desc_def)
    show ?thesis
    proof (cases "r = x")
      case True
      with s(2) l show ?thesis by simp
    next
      case False
      with Cons.prems(2) have "r \<in> set xs" by simp
      with Cons.IH [OF s(1)] l show ?thesis by simp
    qed
  qed
qed

text \<open>
  C3 (as amended). For a table with more than one row, the mAP@0.5:0.95 of the last row is
  the baseline (the smallest value when the table is sorted descending). The report has one
  line for each row whose value differs from the baseline, in table order, and none for
  the baseline row or a row tied with it. When the baseline is not zero, the line of a row
  is its difference to the baseline divided by the baseline, times 100, and a row with
  exactly twice the baseline reports exactly +100.
\<close>

theorem relative_improvement_baseline:
  assumes "length df > 1"
  shows "print_comparison_table df
           = [ComparisonTable df, RelativeImprovement (improvement_lines (mAP5095 (last df)) df)]
    \<and> improvement_lines (mAP5095 (last df)) df
         = map (\<lambda>r. (Method r, improvement_of (mAP5095 (last df)) r))
             (filter (\<lambda>r. mAP5095 r \<noteq> mAP5095 (last df)) df)
    \<and> last df \<notin> set (filter (\<lambda>r. mAP5095 r \<noteq> mAP5095 (last df)) df)
    \<and> length (improvement_lines (mAP5095 (last df)) df) < length df
    \<and> (sorted_desc df \<longrightarrow> (\<forall>r \<in> set df. mAP5095 (last df) \<le> mAP5095 r))
    \<and> (\<forall>r \<in> set df. mAP5095 (last df) \<noteq> 0 \<and> mAP5095 r \<noteq> mAP5095 (last df) \<longrightarrow>
          (Method r, Percent ((mAP5095 r - mAP5095 (last df)) / mAP5095 (last df) * 100))
            \<in> set (improvement_lines (mAP5095 (last df)) df))
    \<and> (\<forall>r \<in> set df. mAP5095 (last df) \<noteq> 0 \<and> mAP5095 r = 2 * mAP5095 (last df) \<longrightarrow>
          (Method r, Percent 100) \<in> set (improvement_lines (mAP5095 (last df)) df))"
proof -
  define b where "b = mAP5095 (last df)"
  from assms have ne: "df \<noteq> []"
    by auto
  then have mem: "last df \<in> set df"
    by simp
  have p: "print_comparison_table df = [ComparisonTable df, RelativeImprovement (improvement_lines b df)]"
    using assms ne by (simp add: print_comparison_table_def b_def)
  have f: "improvement_lines b df
      = map (\<lambda>r. (Method r, improvement_of b r)) (filter (\<lambda>r. mAP5095 r \<noteq> b) df)"
    by (rule improvement_lines_filter)
  have nl: "last df \<notin> set (filter (\<lambda>r. mAP5095 r \<noteq> b) df)"
    by (simp add: b_def)
  have "length (filter (\<lambda>r. mAP5095 r \<noteq> b) df) < length df"
    using mem by (intro length_filter_less [of "last df"]) (simp_all add: b_def)
  then have len: "length (improvement_lines b df) < length df"
    by (simp add: f)
  have least: "\<forall>r \<in> set df. b \<le> mAP5095 r" if "sorted_desc df"
    using that by (auto simp: b_def intro: sorted_desc_last_least)
  have line: "(Method r, Percent ((mAP5095 r - b) / b * 100)) \<in> set (improvement_lines b df)"
    if "r \<in> set df" "b \<noteq> 0" "mAP5095 r \<noteq> b" for r
  proof -
    from that have "r \<in> set (filter (\<lambda>r. mAP5095 r \<noteq> b) df)"
      by simp
    then have "(Method r, improvement_of b r) \<in> set (improvement_lines b df)"
      unfolding f set_map by (rule imageI [of r _ "\<lambda>r. (Method r, improvement_of b r)"])
    with that(2) show ?thesis
      by (simp add: improvement_of_def)
  qed
  have double: "(Method r, Percent 100) \<in> set (improvement_lines b df)"
    if "r \<in> set df" "b \<noteq> 0" "mAP5095 r = 2 * b" for r
  proof -
    from that have "mAP5095 r \<noteq> b" by simp
    from line [OF that(1,2) this] that(2,3) show ?thesis
      by simp
  qed
  show ?thesis
    unfolding b_def [symmetric]
    using p f nl len least line double by (intro conjI impI ballI) auto
qed

lemma print_example:
  "print_comparison_table [example_row ''raw'' (3/5), example_row ''hsv'' (3/10)]
     = [ComparisonTable [example_row ''raw'' (3/5), example_row ''hsv'' (3/10)],
        RelativeImprovement [(''raw'', Percent 100)]]"
  by (simp add: print_comparison_table_def example_row_def improvement_of_def)

theorem relative_improvement_baseline_witness:
  "length [example_row ''raw'' (3/5), example_row ''hsv'' (3/10)] > 1
   \<and> print_comparison_table [example_row ''raw'' (3/5), example_row ''hsv'' (3/10)]
       = [ComparisonTable [example_row ''raw'' (3/5), example_row ''hsv'' (3/10)],
          RelativeImprovement [(''raw'', Percent 100)]]
   \<and> (''raw'', Percent 100) \<in> set (improvement_lines (3/10)
          [example_row ''raw'' (3/5), example_row ''hsv'' (3/10)])"
proof -
  have l: "length [example_row ''raw'' (3/5), example_row ''hsv'' (3/10)] > 1"
    by simp
  have b: "mAP5095 (last [example_row ''raw'' (3/5), example_row ''hsv'' (3/10)]) = 3/10"
    by (simp add: example_row_def)
  have r: "example_row ''raw'' (3/5) \<in> set [example_row ''raw'' (3/5), example_row ''hsv'' (3/10)]"
    "mAP5095 (example_row ''raw'' (3/5)) = 2 * (3/10)" "Method (example_row ''raw'' (3/5)) = ''raw''"
    by (simp_all add: example_row_def)
  from relative_improvement_baseline [OF l]
  have "\<forall>r \<in> set [example_row ''raw'' (3/5), example_row ''hsv'' (3/10)].
          (3/10 :: real) \<noteq> 0 \<and> mAP5095 r = 2 * (3/10) \<longrightarrow>
          (Method r, Percent 100) \<in> set (improvement_lines (3/10)
             [example_row ''raw'' (3/5), example_row ''hsv'' (3/10)])"
    unfolding b by (elim conjE)
  from bspec [OF this r(1)] r(2,3)
  have "(''raw'', Percent 100) \<in> set (improvement_lines (3/10)
          [example_row ''raw'' (3/5), example_row ''hsv'' (3/10)])"
    by simp
  with l print_example show ?thesis
    by (intro conjI)
qed

text \<open>
  C3 as stated fails. With rows 0.6 and 0.3 the report is the single line of the first row:
  the baseline row reports nothing, not 0 percent. With two rows of value 0 the first row
  has twice the baseline and the report is empty.
\<close>

theorem relative_improvement_counterexample:
  "print_comparison_table [example_row ''raw'' (3/5), example_row ''hsv'' (3/10)]
     = [ComparisonTable [example_row ''raw'' (3/5), example_row ''hsv'' (3/10)],
        RelativeImprovement [(''raw'', Percent 100)]]
   \<and> (''hsv'', Percent 0) \<notin> set [(''raw'', Percent 100)]
   \<and> print_comparison_table [example_row ''raw'' 0, example_row ''hsv'' 0]
     = [ComparisonTable [example_row ''raw'' 0, example_row ''hsv'' 0],
        RelativeImprovement []]
   \<and> mAP5095 (example_row ''raw'' 0) = 2 * mAP5095 (example_row ''hsv'' 0)"
proof -
  have "print_comparison_table [example_row ''raw'' 0, example_row ''hsv'' 0]
     = [ComparisonTable [example_row ''raw'' 0, example_row ''hsv'' 0],
        RelativeImprovement []]"
    by (simp add: print_comparison_table_def example_row_def)
  moreover have "(''hsv'', Percent 0) \<notin> set [(''raw'', Percent 100)]"
    by simp
  moreover have "mAP5095 (example_row ''raw'' 0) = 2 * mAP5095 (example_row ''hsv'' 0)"
    by (simp add: example_row_def)
  ultimately show ?thesis
    using print_example by (intro conjI)
qed

subsection \<open>Saving and reloading\<close>

lemma save_metrics_Inr:
  assumes "save_metrics st a method_name model_name output_path = (Inr (), st')"
  obtains fs1 fs2 where
    "mkdir_parents (file_system st) (butlast output_path) = Inr fs1"
    and "write_file fs1 output_path
           (JsonObject \<lparr>json_model = Some model_name, json_method = Some method_name,
              json_metrics = Some ((heap st a)(''f1_score'' \<mapsto>
                calculate_f1_score (dict_get (heap st a) ''precision'' 0)
                  (dict_get (heap st a) ''recall'' 0)))\<rparr>) = Inr fs2"
    and "file_system st' = fs2"
    and "heap st' = (heap st)(a := (heap st a)(''f1_score'' \<mapsto>
                calculate_f1_score (dict_get (heap st a) ''precision'' 0)
                  (dict_get (heap st a) ''recall'' 0)))"
    and "stdout st' = stdout st @ [MetricsSaved output_path]"
    and "metrics_history st' = metrics_history st
           @ [\<lparr>res_model = model_name, res_method = method_name, res_metrics = a\<rparr>]"
  using assms unfolding save_metrics_def Let_def
  by (auto split: sum.splits)

lemma save_metrics_summary_heap:
  "heap (snd (save_metrics_summary st a method_name model_name output_path)) = heap st"
  unfolding save_metrics_summary_def Let_def
  by (simp split: sum.splits)

lemma mkdir_example:
  "mkdir_parents [[''results''] \<mapsto> Dir] [''results'', ''raw'']
     = Inr [[''results''] \<mapsto> Dir, [''results'', ''raw''] \<mapsto> Dir]"
  by (subst mkdir_parents.simps)
     (simp add: node_at_def is_dir_def stat_def resolve_def)

lemma save_example:
  "save_metrics example_state 0 ''raw'' ''yolov8n'' [''results'', ''raw'', ''metrics.json'']
     = (Inr (), saved_state)"
  by (simp add: save_metrics_def Let_def example_state_def saved_state_def mkdir_example
      write_file_def resolve_def node_at_def is_dir_def stat_def dict_get_def
      calculate_f1_score_def)


lemma dict_get_f1_upd:
  "dict_get (m(''f1_score'' \<mapsto> x)) ''precision'' dflt = dict_get m ''precision'' dflt"
  "dict_get (m(''f1_score'' \<mapsto> x)) ''recall'' dflt = dict_get m ''recall'' dflt"
  by (simp_all add: dict_get_def)

lemma row_of_ignores_stored_f1:
  "F1_Score (row_of d (res\<lparr>json_metrics := Some (m(''f1_score'' \<mapsto> x))\<rparr>))
     = calculate_f1_score (dict_get m ''precision'' 0) (dict_get m ''recall'' 0)"
  by (simp add: row_of_def Let_def dict_get_f1_upd)

lemma collect_rows_member:
  assumes "collect_rows fs rp names = Inr data" and "d \<in> set names"
    and "is_dir fs (rp @ [d])"
    and "stat fs (rp @ [d, ''metrics.json'']) = Some (File (JsonObject doc))"
  shows "row_of d doc \<in> set data"
  using assms(1,2)
proof (induction names arbitrary: data)
  case Nil
  then show ?case by simp
next
  case (Cons name names)
  show ?case
  proof (cases "name = d")
    case True
    from assms(4) have ex: "path_exists fs (rp @ [d, ''metrics.json''])"
      by (simp add: path_exists_def)
    from Cons.prems(1) obtain rest where "data = row_of d doc # rest"
      by (auto simp: True assms(3,4) ex bind_exn_def split: sum.splits)
    then show ?thesis by simp
  next
    case False
    with Cons.prems(2) have d: "d \<in> set names" by simp
    from Cons.prems(1) consider "collect_rows fs rp names = Inr data"
      | r rest where "collect_rows fs rp names = Inr rest" "data = r # rest"
      by (auto simp: Let_def bind_exn_def
          split: if_splits option.splits node.splits file_content.splits sum.splits)
    then show ?thesis
    proof cases
      case 1
      then show ?thesis by (rule Cons.IH [OF _ d])
    next
      case 2
      from Cons.IH [OF 2(1) d] show ?thesis by (simp add: 2(2))
    qed
  qed
qed

text \<open>
  C6. Round trip through persistence: when \<open>save_metrics\<close> has written the dictionary at
  address \<open>a\<close> to \<^verbatim>\<open>{results_path}/{d}/metrics.json\<close> and the scan of the results root
  lists \<open>d\<close>, the table holds a row for it whose F1-Score is \<open>calculate_f1_score\<close> of the
  precision and recall of that dictionary (0 where absent); and the F1-Score of a row never
  depends on the \<^verbatim>\<open>f1_score\<close> entry of the stored file.
\<close>

theorem round_trip_recomputes_f1:
  assumes "save_metrics st a method_name model_name (results_path @ [d, ''metrics.json''])
             = (Inr (), st')"
    and "sort_values_contract sv"
    and "d \<in> set names"
    and "create_comparison_table sv (file_system st') results_path names = Inr tbl"
  shows "(\<exists>r \<in> set tbl. Method r = method_name \<and> Model r = model_name
            \<and> Precision r = dict_get (heap st a) ''precision'' 0
            \<and> Recall r = dict_get (heap st a) ''recall'' 0
            \<and> F1_Score r = calculate_f1_score (dict_get (heap st a) ''precision'' 0)
                                              (dict_get (heap st a) ''recall'' 0))
       \<and> (\<forall>res m x. F1_Score (row_of d (res\<lparr>json_metrics := Some (m(''f1_score'' \<mapsto> x))\<rparr>))
            = calculate_f1_score (dict_get m ''precision'' 0) (dict_get m ''recall'' 0))"
proof -
  define doc where "doc = \<lparr>json_model = Some model_name, json_method = Some method_name,
              json_metrics = Some ((heap st a)(''f1_score'' \<mapsto>
                calculate_f1_score (dict_get (heap st a) ''precision'' 0)
                  (dict_get (heap st a) ''recall'' 0)))\<rparr>"
  have bl: "butlast (results_path @ [d, ''metrics.json'']) = results_path @ [d]"
    by (simp add: butlast_append)
  from assms(1) obtain fs1 fs2 where
    mk0: "mkdir_parents (file_system st) (butlast (results_path @ [d, ''metrics.json'']))
            = Inr fs1" and
    wr0: "write_file fs1 (results_path @ [d, ''metrics.json''])
           (JsonObject \<lparr>json_model = Some model_name, json_method = Some method_name,
              json_metrics = Some ((heap st a)(''f1_score'' \<mapsto>
                calculate_f1_score (dict_get (heap st a) ''precision'' 0)
                  (dict_get (heap st a) ''recall'' 0)))\<rparr>) = Inr fs2" and
    fs2: "file_system st' = fs2"
    by (rule save_metrics_Inr)
  from mk0 have mk: "mkdir_parents (file_system st) (results_path @ [d]) = Inr fs1"
    by (simp only: bl)
  from wr0 have wr: "write_file fs1 (results_path @ [d, ''metrics.json'']) (JsonObject doc)
           = Inr (file_system st')"
    by (simp only: doc_def fs2)
  have dir: "is_dir (file_system st') (results_path @ [d])"
    using mkdir_parents_is_dir [OF mk] by (simp add: write_file_is_dir [OF wr])
  have fl: "stat (file_system st') (results_path @ [d, ''metrics.json''])
      = Some (File (JsonObject doc))"
    by (rule write_file_stat [OF wr])
  from assms(4) obtain data where
    data: "collect_rows (file_system st') results_path names = Inr data" and
    tbl: "tbl = (if data \<noteq> [] then sv data else data)"
    by (rule create_comparison_table_Inr)
  have "row_of d doc \<in> set data"
    by (rule collect_rows_member [OF data assms(3) dir fl])
  moreover from assms(2) have "mset (sv data) = mset data"
    by (simp add: sort_values_contract_def)
  then have "set (sv data) = set data"
    by (rule mset_eq_setD)
  then have "set tbl = set data"
    by (simp add: tbl)
  ultimately have "row_of d doc \<in> set tbl"
    by simp
  moreover have "Method (row_of d doc) = method_name" "Model (row_of d doc) = model_name"
    "Precision (row_of d doc) = dict_get (heap st a) ''precision'' 0"
    "Recall (row_of d doc) = dict_get (heap st a) ''recall'' 0"
    "F1_Score (row_of d doc) = calculate_f1_score (dict_get (heap st a) ''precision'' 0)
                                              (dict_get (heap st a) ''recall'' 0)"
    by (simp_all add: row_of_def Let_def doc_def dict_get_f1_upd)
  ultimately have "\<exists>r \<in> set tbl. Method r = method_name \<and> Model r = model_name
            \<and> Precision r = dict_get (heap st a) ''precision'' 0
            \<and> Recall r = dict_get (heap st a) ''recall'' 0
            \<and> F1_Score r = calculate_f1_score (dict_get (heap st a) ''precision'' 0)
                                              (dict_get (heap st a) ''recall'' 0)"
    by (intro bexI [of _ "row_of d doc"] conjI)
  then show ?thesis
    by (intro conjI allI row_of_ignores_stored_f1)
qed

lemma table_saved:
  "create_comparison_table stable_sort_values (file_system saved_state) [''results''] [''raw'']
     = Inr [\<lparr>Method = ''raw'', Model = ''yolov8n'', mAP50 = 0, mAP5095 = 2/5, mAP75 = 0,
      Precision = 1/2, Recall = 1, F1_Score = 2/3\<rparr>]"
  by (simp add: create_comparison_table_def saved_state_def is_dir_def path_exists_def
      stat_def resolve_def node_at_def bind_exn_def row_of_def Let_def dict_get_def
      calculate_f1_score_def stable_sort_values_def)

theorem round_trip_recomputes_f1_witness:
  "save_metrics example_state 0 ''raw'' ''yolov8n'' ([''results''] @ [''raw'', ''metrics.json''])
     = (Inr (), saved_state)
   \<and> create_comparison_table stable_sort_values (file_system saved_state) [''results''] [''raw'']
     = Inr [\<lparr>Method = ''raw'', Model = ''yolov8n'', mAP50 = 0, mAP5095 = 2/5, mAP75 = 0,
      Precision = 1/2, Recall = 1, F1_Score = 2/3\<rparr>]
   \<and> (\<exists>r \<in> set [\<lparr>Method = ''raw'', Model = ''yolov8n'', mAP50 = 0, mAP5095 = 2/5, mAP75 = 0,
      Precision = 1/2, Recall = 1, F1_Score = 2/3\<rparr>].
         F1_Score r = calculate_f1_score (dict_get (heap example_state 0) ''precision'' 0)
                                              (dict_get (heap example_state 0) ''recall'' 0))"
proof -
  have s: "save_metrics example_state 0 ''raw'' ''yolov8n''
      ([''results''] @ [''raw'', ''metrics.json'']) = (Inr (), saved_state)"
    using save_example by simp
  have n: "''raw'' \<in> set [''raw'']"
    by simp
  from round_trip_recomputes_f1 [OF s stable_sort_values_contract n table_saved]
  have "\<exists>r \<in> set [\<lparr>Method = ''raw'', Model = ''yolov8n'', mAP50 = 0, mAP5095 = 2/5, mAP75 = 0,
      Precision = 1/2, Recall = 1, F1_Score = 2/3\<rparr>].
         F1_Score r = calculate_f1_score (dict_get (heap example_state 0) ''precision'' 0)
                                              (dict_get (heap example_state 0) ''recall'' 0)"
    by blast
  with s table_saved show ?thesis
    by blast
qed

text \<open>
  C8. When \<open>save_metrics\<close> returns, the caller's dictionary (the one at the address passed
  in) has the key \<^verbatim>\<open>f1_score\<close> set to \<open>calculate_f1_score\<close> of its \<^verbatim>\<open>precision\<close> and
  \<^verbatim>\<open>recall\<close> entries (0 where absent), every other key of it and every other dictionary
  are unchanged; \<open>save_metrics_summary\<close> leaves the whole heap unchanged.
\<close>

theorem save_metrics_mutates_caller_dict:
  assumes "save_metrics st a method_name model_name output_path = (Inr (), st')"
  shows "heap st' a = (heap st a)(''f1_score'' \<mapsto>
            calculate_f1_score (dict_get (heap st a) ''precision'' 0)
                               (dict_get (heap st a) ''recall'' 0))
       \<and> (\<forall>k. k \<noteq> ''f1_score'' \<longrightarrow> heap st' a k = heap st a k)
       \<and> (\<forall>b. b \<noteq> a \<longrightarrow> heap st' b = heap st b)
       \<and> heap (snd (save_metrics_summary st a method_name model_name summary_path)) = heap st"
  using assms by (elim save_metrics_Inr) (simp add: save_metrics_summary_heap)

theorem save_metrics_mutates_caller_dict_witness:
  "save_metrics example_state 0 ''raw'' ''yolov8n'' [''results'', ''raw'', ''metrics.json'']
     = (Inr (), saved_state)
   \<and> heap example_state 0 ''f1_score'' = None
   \<and> heap saved_state 0 ''f1_score'' = Some (2/3)
   \<and> heap saved_state 0 ''precision'' = heap example_state 0 ''precision''
   \<and> heap saved_state 1 = heap example_state 1
   \<and> heap (snd (save_metrics_summary example_state 0 ''raw'' ''yolov8n''
        [''results'', ''raw'', ''metrics_summary.txt''])) = heap example_state"
proof -
  have f1: "calculate_f1_score (dict_get (heap example_state 0) ''precision'' 0)
                               (dict_get (heap example_state 0) ''recall'' 0) = 2/3"
    by (simp add: example_state_def dict_get_def calculate_f1_score_def)
  have none: "heap example_state 0 ''f1_score'' = None"
    by (simp add: example_state_def)
  from save_metrics_mutates_caller_dict [OF save_example,
      of "[''results'', ''raw'', ''metrics_summary.txt'']"]
  have "heap saved_state 0 ''f1_score'' = Some (2/3)"
    and "heap saved_state 0 ''precision'' = heap example_state 0 ''precision''"
    and "heap saved_state 1 = heap example_state 1"
    and "heap (snd (save_metrics_summary example_state 0 ''raw'' ''yolov8n''
        [''results'', ''raw'', ''metrics_summary.txt''])) = heap example_state"
    by (simp_all add: f1)
  with save_example none show ?thesis
    by blast
qed

section \<open>Properties of the data processor\<close>

subsection \<open>The pairing report\<close>

text \<open>
  C7 (as amended). When the image directory and the label directory exist,
  \<open>verify_dataset\<close> returns (it raises nothing) with \<open>matched_count\<close> the size of the
  intersection of the image stems and the label stems; the issues are an unmatched-image
  issue counting the stems found only among the images, present exactly when there are
  such stems, followed by an unmatched-label issue counting the stems found only among the
  labels, present exactly when there are such stems.
\<close>

theorem verify_dataset_pairing:
  assumes "path_exists fs (images_dir data_root @ [method_name])"
    and "path_exists fs (labels_dir data_root @ [''val''])"
  shows "matched_count (verify_dataset data_root fs image_listing label_files method_name)
           = card (image_stems (get_image_files fs image_listing) \<inter> image_stems label_files)
    \<and> issues (verify_dataset data_root fs image_listing label_files method_name)
         = (if image_stems (get_image_files fs image_listing) - image_stems label_files \<noteq> {}
            then [UnmatchedImages
                    (card (image_stems (get_image_files fs image_listing) - image_stems label_files))]
            else [])
         @ (if image_stems label_files - image_stems (get_image_files fs image_listing) \<noteq> {}
            then [UnmatchedLabels
                    (card (image_stems label_files - image_stems (get_image_files fs image_listing)))]
            else [])
    \<and> images_exist (verify_dataset data_root fs image_listing label_files method_name)
    \<and> labels_exist (verify_dataset data_root fs image_listing label_files method_name)
    \<and> image_count (verify_dataset data_root fs image_listing label_files method_name)
         = length (get_image_files fs image_listing)
    \<and> label_count (verify_dataset data_root fs image_listing label_files method_name)
         = length label_files"
  using assms by (simp add: verify_dataset_def Let_def)

lemma lower_jpg: "lower ''.jpg'' = ''.jpg''" "lower ''.png'' = ''.png''"
  by (simp_all add: lower_def lower_char_def)

lemma suffix_examples:
  "name_suffix ''a.jpg'' = ''.jpg''" "name_suffix ''b.jpg'' = ''.jpg''"
  "name_suffix ''c.png'' = ''.png''"
  by (simp_all add: name_suffix_def rfind_dot_def)

lemma stem_examples:
  "name_stem ''a.jpg'' = ''a''" "name_stem ''b.jpg'' = ''b''" "name_stem ''c.png'' = ''c''"
  "name_stem ''a.txt'' = ''a''" "name_stem ''b.txt'' = ''b''" "name_stem ''c.txt'' = ''c''"
  "name_stem ''d.txt'' = ''d''"
  by (simp_all add: name_stem_def rfind_dot_def)

lemma paired_image_files: "get_image_files paired_data paired_images = paired_images"
  by (simp add: get_image_files_def paired_images_def path_name_def suffix_examples lower_jpg
      image_extensions_def is_file_def stat_def resolve_def node_at_def paired_data_def)

lemma paired_stems:
  "image_stems paired_images = {''a'', ''b'', ''c''}"
  "image_stems paired_labels = {''b'', ''c'', ''d''}"
  by (simp_all add: image_stems_def paired_images_def paired_labels_def path_name_def
      stem_examples)

lemma paired_sets:
  "{''a'', ''b'', ''c''} \<inter> {''b'', ''c'', ''d''} = {''b'', ''c''}"
  "{''a'', ''b'', ''c''} - {''b'', ''c'', ''d''} = {''a''}"
  "{''b'', ''c'', ''d''} - {''a'', ''b'', ''c''} = {''d''}"
  by (simp_all add: insert_Diff_if)

lemma paired_dirs:
  "path_exists paired_data (images_dir [''data''] @ [''raw''])"
  "path_exists paired_data (labels_dir [''data''] @ [''val''])"
  by (simp_all add: path_exists_def stat_def resolve_def node_at_def paired_data_def
      images_dir_def labels_dir_def)

theorem verify_dataset_pairing_witness:
  "path_exists paired_data (images_dir [''data''] @ [''raw''])
   \<and> path_exists paired_data (labels_dir [''data''] @ [''val''])
   \<and> image_stems (get_image_files paired_data paired_images) = {''a'', ''b'', ''c''}
   \<and> image_stems paired_labels = {''b'', ''c'', ''d''}
   \<and> matched_count (verify_dataset [''data''] paired_data paired_images paired_labels ''raw'') = 2
   \<and> issues (verify_dataset [''data''] paired_data paired_images paired_labels ''raw'')
       = [UnmatchedImages 1, UnmatchedLabels 1]"
proof -
  note v = verify_dataset_pairing [OF paired_dirs, of paired_images paired_labels]
  have m: "matched_count (verify_dataset [''data''] paired_data paired_images paired_labels ''raw'') = 2"
    using v by (simp add: paired_image_files paired_stems paired_sets)
  have i: "issues (verify_dataset [''data''] paired_data paired_images paired_labels ''raw'')
       = [UnmatchedImages 1, UnmatchedLabels 1]"
    using v by (simp add: paired_image_files paired_stems paired_sets)
  show ?thesis
    using paired_dirs m i by (simp add: paired_image_files paired_stems)
qed

text \<open>
  C7 as stated fails: with image stems \<open>{a}\<close> and label stems \<open>{a}\<close> the report has no
  unmatched-image issue and no unmatched-label issue at all.
\<close>

theorem verify_dataset_no_issue_counterexample:
  "image_stems (get_image_files matched_data [[''data'', ''images'', ''raw'', ''a.jpg'']]) = {''a''}
   \<and> image_stems [[''data'', ''labels'', ''val'', ''a.txt'']] = {''a''}
   \<and> verify_dataset [''data''] matched_data [[''data'', ''images'', ''raw'', ''a.jpg'']]
         [[''data'', ''labels'', ''val'', ''a.txt'']] ''raw''
       = \<lparr>v_method = ''raw'', images_exist = True, labels_exist = True, image_count = 1,
          label_count = 1, matched_count = 1, issues = []\<rparr>"
proof -
  have g: "get_image_files matched_data [[''data'', ''images'', ''raw'', ''a.jpg'']]
      = [[''data'', ''images'', ''raw'', ''a.jpg'']]"
    by (simp add: get_image_files_def path_name_def suffix_examples lower_jpg
      image_extensions_def is_file_def stat_def resolve_def node_at_def matched_data_def)
  have s: "image_stems [[''data'', ''images'', ''raw'', ''a.jpg'']] = {''a''}"
    "image_stems [[''data'', ''labels'', ''val'', ''a.txt'']] = {''a''}"
    by (simp_all add: image_stems_def path_name_def stem_examples)
  have d: "path_exists matched_data [''data'', ''images'', ''raw'']"
    "path_exists matched_data [''data'', ''labels'', ''val'']"
    by (simp_all add: path_exists_def stat_def resolve_def node_at_def matched_data_def)
  have "verify_dataset [''data''] matched_data [[''data'', ''images'', ''raw'', ''a.jpg'']]
         [[''data'', ''labels'', ''val'', ''a.txt'']] ''raw''
       = \<lparr>v_method = ''raw'', images_exist = True, labels_exist = True, image_count = 1,
          label_count = 1, matched_count = 1, issues = []\<rparr>"
    by (simp add: verify_dataset_def Let_def images_dir_def labels_dir_def d g s)
  then show ?thesis
    by (simp add: g s)
qed

subsection \<open>Staging\<close>

lemma mkdir_parents_created:
  assumes "mkdir_parents fs p = Inr fs'" and "node_at fs p = None"
  shows "fs' p = Some Dir"
  using assms by (subst (asm) mkdir_parents.simps) (auto split: if_splits sum.splits)

lemma prepare_dataset_False:
  assumes "prepare_dataset data_root fs source_images listing method_name copy_mode
             = (Inr False, fs')"
  shows "mkdir_parents fs (images_dir data_root @ [method_name]) = Inr fs'"
    and "\<not> path_exists fs' source_images \<or> get_image_files fs' listing = []"
  using assms unfolding prepare_dataset_def Let_def
  by (auto split: sum.splits if_splits prod.splits option.splits)

lemma mkdir_parents_existing:
  assumes "mkdir_parents fs p = Inr fs'" and "node_at fs p \<noteq> None"
  shows "fs' = fs"
  using assms by (subst (asm) mkdir_parents.simps) (simp split: if_splits)

text \<open>
  C9 (as amended). Whenever \<open>prepare_dataset\<close> returns \<^verbatim>\<open>False\<close> (the source directory
  does not exist, or holds no image file), the target directory
  \<^verbatim>\<open>{data_root}/images/{method}\<close> exists afterwards, because it is made before the source
  is looked at. The file system has changed exactly when there was nothing at the target
  path before the call; when the target directory was already there, the failure path
  leaves the file system as it was.
\<close>

theorem prepare_dataset_failure_creates_target:
  assumes "prepare_dataset data_root fs source_images listing method_name copy_mode
             = (Inr False, fs')"
  shows "is_dir fs' (images_dir data_root @ [method_name])
    \<and> (\<not> path_exists fs' source_images \<or> get_image_files fs' listing = [])
    \<and> (node_at fs (images_dir data_root @ [method_name]) = None \<longrightarrow>
          fs' (images_dir data_root @ [method_name]) = Some Dir \<and> fs' \<noteq> fs)
    \<and> (node_at fs (images_dir data_root @ [method_name]) \<noteq> None \<longrightarrow> fs' = fs)"
proof -
  note mk = prepare_dataset_False(1) [OF assms]
  have "is_dir fs' (images_dir data_root @ [method_name])"
    by (rule mkdir_parents_is_dir [OF mk])
  moreover have "fs' (images_dir data_root @ [method_name]) = Some Dir \<and> fs' \<noteq> fs"
    if n: "node_at fs (images_dir data_root @ [method_name]) = None"
  proof -
    have d: "fs' (images_dir data_root @ [method_name]) = Some Dir"
      by (rule mkdir_parents_created [OF mk n])
    from n have "fs (images_dir data_root @ [method_name]) = None"
      by (simp add: node_at_def images_dir_def)
    with d have "fs' \<noteq> fs"
      by auto
    with d show ?thesis ..
  qed
  moreover have "fs' = fs"
    if "node_at fs (images_dir data_root @ [method_name]) \<noteq> None"
    using mk that by (rule mkdir_parents_existing)
  ultimately show ?thesis
    using prepare_dataset_False(2) [OF assms] by blast
qed

text \<open>
  C9 as stated fails in its last clause: when the target directory is already there and the
  source directory is missing, \<open>prepare_dataset\<close> returns \<^verbatim>\<open>False\<close> and the file system is
  the one it started from.
\<close>

theorem prepare_dataset_failure_unchanged_counterexample:
  "is_dir paired_data (images_dir [''data''] @ [''raw''])
   \<and> \<not> path_exists paired_data [''src'']
   \<and> prepare_dataset [''data''] paired_data [''src''] [] ''raw'' False
       = (Inr False, paired_data)"
proof -
  have d: "is_dir paired_data [''data'', ''images'', ''raw'']"
    by (simp add: is_dir_def stat_def resolve_def node_at_def paired_data_def)
  have n: "node_at paired_data [''data'', ''images'', ''raw''] \<noteq> None"
    by (simp add: node_at_def paired_data_def)
  have mk: "mkdir_parents paired_data [''data'', ''images'', ''raw''] = Inr paired_data"
    by (subst mkdir_parents.simps) (simp add: d n)
  have s: "\<not> path_exists paired_data [''src'']"
    by (simp add: path_exists_def stat_def resolve_def node_at_def paired_data_def)
  have "prepare_dataset [''data''] paired_data [''src''] [] ''raw'' False
       = (Inr False, paired_data)"
    by (simp add: prepare_dataset_def images_dir_def mk s)
  with d s show ?thesis
    by (simp add: images_dir_def)
qed

lemma mkdir_unstaged:
  "mkdir_parents unstaged_data [''data'', ''images'', ''raw'']
     = Inr (unstaged_data([''data'', ''images''] \<mapsto> Dir, [''data'', ''images'', ''raw''] \<mapsto> Dir))"
proof -
  have 1: "mkdir_parents unstaged_data [''data'', ''images'']
      = Inr (unstaged_data([''data'', ''images''] \<mapsto> Dir))"
    by (subst mkdir_parents.simps)
       (simp add: node_at_def is_dir_def stat_def resolve_def unstaged_data_def)
  have 2: "node_at unstaged_data [''data'', ''images'', ''raw''] = None"
    "\<not> is_dir unstaged_data [''data'', ''images'']"
    "\<not> path_exists unstaged_data [''data'', ''images'']"
    by (simp_all add: node_at_def is_dir_def path_exists_def stat_def resolve_def
        unstaged_data_def)
  show ?thesis
    by (subst mkdir_parents.simps) (simp add: 1 2)
qed

lemma prepare_unstaged:
  "prepare_dataset [''data''] unstaged_data [''src''] [] ''raw'' False
     = (Inr False,
        unstaged_data([''data'', ''images''] \<mapsto> Dir, [''data'', ''images'', ''raw''] \<mapsto> Dir))"
proof -
  have "\<not> path_exists
      (unstaged_data([''data'', ''images''] \<mapsto> Dir, [''data'', ''images'', ''raw''] \<mapsto> Dir))
      [''src'']"
    by (simp add: path_exists_def stat_def resolve_def node_at_def unstaged_data_def)
  then show ?thesis
    by (simp add: prepare_dataset_def images_dir_def mkdir_unstaged)
qed

theorem prepare_dataset_failure_creates_target_witness:
  "prepare_dataset [''data''] unstaged_data [''src''] [] ''raw'' False
     = (Inr False,
        unstaged_data([''data'', ''images''] \<mapsto> Dir, [''data'', ''images'', ''raw''] \<mapsto> Dir))
   \<and> node_at unstaged_data (images_dir [''data''] @ [''raw'']) = None
   \<and> is_dir (unstaged_data([''data'', ''images''] \<mapsto> Dir, [''data'', ''images'', ''raw''] \<mapsto> Dir))
        (images_dir [''data''] @ [''raw''])
   \<and> unstaged_data([''data'', ''images''] \<mapsto> Dir, [''data'', ''images'', ''raw''] \<mapsto> Dir)
        \<noteq> unstaged_data"
proof -
  have n: "node_at unstaged_data (images_dir [''data''] @ [''raw'']) = None"
    by (simp add: node_at_def images_dir_def unstaged_data_def)
  from prepare_dataset_failure_creates_target [OF prepare_unstaged] n prepare_unstaged
  show ?thesis
    by blast
qed

lemma follow_max_symlinks_plain:
  "\<forall>t. node_at fs p \<noteq> Some (Symlink t) \<Longrightarrow> follow max_symlinks fs p = Some p"
  by (simp add: max_symlinks_def eval_nat_numeral split: option.splits node.splits)

text \<open>
  C4 fails on the code. A link left in the target directory whose own target is gone is not
  seen by \<^verbatim>\<open>target_file.exists()\<close>, which follows links, so it is not removed, and
  \<^verbatim>\<open>os.symlink\<close> then raises \<^verbatim>\<open>FileExistsError\<close>: the stale link stays and nothing is
  staged.
\<close>

theorem prepare_dataset_stale_link_raises:
  "\<not> path_exists stale_link_data [''data'', ''images'', ''raw'', ''a.jpg'']
   \<and> node_at stale_link_data [''data'', ''images'', ''raw'', ''a.jpg'']
       = Some (Symlink [''old'', ''a.jpg''])
   \<and> get_image_files stale_link_data [[''src'', ''a.jpg'']] = [[''src'', ''a.jpg'']]
   \<and> prepare_dataset [''data''] stale_link_data [''src''] [[''src'', ''a.jpg'']] ''raw'' False
       = (Inl FileExistsError, stale_link_data)"
proof -
  have old: "follow max_symlinks stale_link_data [''old'', ''a.jpg''] = Some [''old'', ''a.jpg'']"
    by (rule follow_max_symlinks_plain) (simp add: node_at_def stale_link_data_def)
  have link: "node_at stale_link_data [''data'', ''images'', ''raw'', ''a.jpg'']
       = Some (Symlink [''old'', ''a.jpg''])"
    by (simp add: node_at_def stale_link_data_def)
  have st: "stat stale_link_data [''data'', ''images'', ''raw'', ''a.jpg''] = None"
    by (simp add: stat_def resolve_def link old) (simp add: node_at_def stale_link_data_def)
  then have ne: "\<not> path_exists stale_link_data [''data'', ''images'', ''raw'', ''a.jpg'']"
    by (simp add: path_exists_def)
  have mk: "mkdir_parents stale_link_data [''data'', ''images'', ''raw''] = Inr stale_link_data"
    by (subst mkdir_parents.simps)
       (simp add: node_at_def is_dir_def stat_def resolve_def stale_link_data_def)
  have src: "path_exists stale_link_data [''src'']"
    by (simp add: path_exists_def stat_def resolve_def node_at_def stale_link_data_def)
  have g: "get_image_files stale_link_data [[''src'', ''a.jpg'']] = [[''src'', ''a.jpg'']]"
    by (simp add: get_image_files_def path_name_def suffix_examples lower_jpg
      image_extensions_def is_file_def stat_def resolve_def node_at_def stale_link_data_def)
  have stage: "stage_file False [''data'', ''images'', ''raw''] stale_link_data [''src'', ''a.jpg'']
      = (Some FileExistsError, stale_link_data)"
    by (simp add: stage_file_def path_name_def ne os_symlink_def link)
  have "prepare_dataset [''data''] stale_link_data [''src''] [[''src'', ''a.jpg'']] ''raw'' False
       = (Inl FileExistsError, stale_link_data)"
    by (simp add: prepare_dataset_def images_dir_def mk src g stage)
  with ne link g show ?thesis
    by (intro conjI)
qed

subsection \<open>One round of the staging loop\<close>

lemma resolve_plain:
  "\<forall>t. node_at fs p \<noteq> Some (Symlink t) \<Longrightarrow> resolve fs p = Some p"
  by (simp add: resolve_def split: option.splits node.splits)

lemma stat_plain:
  "\<forall>t. node_at fs p \<noteq> Some (Symlink t) \<Longrightarrow> stat fs p = node_at fs p"
  by (simp add: stat_def resolve_plain)

lemma stat_link:
  assumes "node_at fs p = Some (Symlink g)" and "\<forall>t. node_at fs g \<noteq> Some (Symlink t)"
  shows "stat fs p = node_at fs g"
  using assms by (simp add: stat_def resolve_def follow_max_symlinks_plain)

lemma source_ok_node:
  assumes "source_ok T fs f"
  obtains c where "node_at fs f = Some (File c)" and "fs f = Some (File c)"
    and "f \<noteq> []" and "\<And>n. f \<noteq> T @ [n]"
  using assms by (auto simp: source_ok_def node_at_def)

lemma source_ok_upd:
  "source_ok T (fs(T @ [n] := x)) g = source_ok T fs g"
  by (auto simp: source_ok_def)

lemma stage_file_link:
  assumes dir: "fs T = Some Dir" and T: "T \<noteq> []"
    and src: "source_ok T fs f"
    and ent: "entry_ok False T fs (T @ [path_name f])"
  shows "stage_file False T fs f = (None, fs(T @ [path_name f] \<mapsto> Symlink f))"
proof -
  define tf where "tf = T @ [path_name f]"
  have tf: "tf \<noteq> []" "butlast tf = T" "tf \<noteq> T" "node_at fs tf = fs tf"
    by (simp_all add: tf_def node_at_def)
  have nT: "node_at fs T = Some Dir"
    using dir T by (simp add: node_at_def)
  have dT: "is_dir fs T"
    by (simp add: is_dir_def stat_plain nT)
  have dT': "is_dir (fs(tf := None)) T"
    using tf(3) nT T by (simp add: is_dir_def stat_plain node_at_def)
  have sym: "os_symlink fs' f tf = Inr (fs'(tf \<mapsto> Symlink f))"
    if "fs' tf = None" "is_dir fs' T" for fs'
    using that tf by (simp add: os_symlink_def node_at_def)
  have un: "(case os_symlink (fs(tf := None)) f tf of
              Inl e \<Rightarrow> (Some e, fs(tf := None))
            | Inr fs2 \<Rightarrow> (None, fs2)) = (None, fs(tf \<mapsto> Symlink f))"
    by (simp add: sym [of "fs(tf := None)"] dT')
  show ?thesis
  proof (cases "fs tf")
    case None
    then have "\<not> path_exists fs tf"
      by (simp add: path_exists_def stat_plain tf(4))
    then show ?thesis
      unfolding stage_file_def Let_def tf_def [symmetric]
      by (simp add: sym [of fs] None dT)
  next
    case (Some nd)
    show ?thesis
    proof (cases nd)
      case Dir
      with Some ent show ?thesis
        by (simp add: entry_ok_def tf_def)
    next
      case (File c)
      with Some have ex: "path_exists fs tf"
        by (simp add: path_exists_def stat_plain tf(4))
      have "unlink fs tf = Inr (fs(tf := None))"
        by (simp add: unlink_def tf(4) Some File)
      then show ?thesis
        unfolding stage_file_def Let_def tf_def [symmetric]
        by (simp add: ex un)
    next
      case (Symlink g)
      with Some ent have "source_ok T fs g"
        by (simp add: entry_ok_def tf_def)
      then obtain c where g: "node_at fs g = Some (File c)"
        by (rule source_ok_node)
      have "stat fs tf = Some (File c)"
        using stat_link [of fs tf g] Some Symlink g by (simp add: tf(4))
      then have ex: "path_exists fs tf"
        by (simp add: path_exists_def)
      have "unlink fs tf = Inr (fs(tf := None))"
        by (simp add: unlink_def tf(4) Some Symlink)
      then show ?thesis
        unfolding stage_file_def Let_def tf_def [symmetric]
        by (simp add: ex un)
    qed
  qed
qed

lemma stage_file_copy:
  assumes dir: "fs T = Some Dir" and T: "T \<noteq> []"
    and src: "source_ok T fs f"
    and ent: "entry_ok True T fs (T @ [path_name f])"
  shows "stage_file True T fs f = (None, fs(T @ [path_name f] \<mapsto> staged_entry True fs f))"
proof -
  define tf where "tf = T @ [path_name f]"
  have tf: "tf \<noteq> []" "butlast tf = T" "tf \<noteq> T" "node_at fs tf = fs tf"
    by (simp_all add: tf_def node_at_def)
  from src obtain c where f: "node_at fs f = Some (File c)" "fs f = Some (File c)"
    "f \<noteq> []" "f \<noteq> tf"
    unfolding tf_def by (rule source_ok_node) blast
  have nT: "node_at fs T = Some Dir"
    using dir T by (simp add: node_at_def)
  have dT: "is_dir fs T"
    by (simp add: is_dir_def stat_plain nT)
  from ent have plain: "fs tf = None \<or> (\<exists>old. fs tf = Some (File old))"
    by (auto simp: entry_ok_def tf_def split: option.splits node.splits)
  then have nl: "\<forall>t. node_at fs tf \<noteq> Some (Symlink t)"
    by (auto simp: tf(4))
  have nd: "\<not> is_dir fs tf"
    using plain by (auto simp: is_dir_def stat_plain [OF nl] tf(4))
  have rf: "resolve fs f = Some f" "stat fs f = Some (File c)"
    by (simp_all add: resolve_plain stat_plain f(1))
  have rt: "resolve fs tf = Some tf"
    by (rule resolve_plain [OF nl])
  have ns: "\<not> samefile fs f tf"
    by (simp add: samefile_def rf rt f(4))
  have wr: "write_file fs tf c = Inr (fs(tf \<mapsto> File c))"
    using plain by (auto simp: write_file_def rt tf dT)
  have "copy2 fs f tf = Inr (fs(tf \<mapsto> File c))"
    by (simp add: copy2_def nd ns rf wr)
  then show ?thesis
    unfolding stage_file_def Let_def tf_def [symmetric]
    by (simp add: staged_entry_def f(2))
qed

lemma stage_file_ok:
  assumes "fs T = Some Dir" and "T \<noteq> []" and "source_ok T fs f"
    and "entry_ok copy_mode T fs (T @ [path_name f])"
  shows "stage_file copy_mode T fs f
           = (None, fs(T @ [path_name f] \<mapsto> staged_entry copy_mode fs f))"
proof (cases copy_mode)
  case True
  with assms show ?thesis
    by (simp add: stage_file_copy)
next
  case False
  with assms show ?thesis
    by (simp add: stage_file_link staged_entry_def)
qed

subsection \<open>The staging loop\<close>

lemma staged_Cons:
  "staged copy_mode T fs (f # rest)
     = foldl (\<lambda>a f. a(T @ [path_name f] \<mapsto> staged_entry copy_mode fs f))
         (fs(T @ [path_name f] \<mapsto> staged_entry copy_mode fs f)) rest"
  by (simp add: staged_def)

lemma staged_snoc:
  "staged copy_mode T fs (files @ [f])
     = (staged copy_mode T fs files)(T @ [path_name f] \<mapsto> staged_entry copy_mode fs f)"
  by (simp add: staged_def)

lemma staged_entry_cong:
  "fs' f = fs f \<Longrightarrow> staged_entry copy_mode fs' f = staged_entry copy_mode fs f"
  by (simp add: staged_entry_def)

lemma foldl_fun_cong:
  "(\<And>a x. x \<in> set xs \<Longrightarrow> f a x = g a x) \<Longrightarrow> foldl f a xs = foldl g a xs"
  by (induction xs arbitrary: a) simp_all

lemma entry_ok_upd:
  assumes "entry_ok copy_mode T fs (T @ [m])" and "source_ok T fs f"
  shows "entry_ok copy_mode T (fs(T @ [n] \<mapsto> staged_entry copy_mode fs f)) (T @ [m])"
proof (cases "m = n")
  case True
  from assms(2) obtain c where "fs f = Some (File c)"
    by (rule source_ok_node)
  with assms(2) True show ?thesis
    by (simp add: entry_ok_def staged_entry_def source_ok_upd)
next
  case False
  with assms(1) show ?thesis
    by (simp add: entry_ok_def source_ok_upd split: option.splits node.splits)
qed

lemma stage_files_ok:
  assumes "fs T = Some Dir" and "T \<noteq> []"
    and "\<forall>f \<in> set files. source_ok T fs f"
    and "\<forall>f \<in> set files. entry_ok copy_mode T fs (T @ [path_name f])"
  shows "stage_files copy_mode T fs files = (None, staged copy_mode T fs files)"
  using assms
proof (induction files arbitrary: fs)
  case Nil
  show ?case by (simp add: staged_def)
next
  case (Cons f rest)
  define fs1 where "fs1 = fs(T @ [path_name f] \<mapsto> staged_entry copy_mode fs f)"
  from Cons.prems have f: "source_ok T fs f" "entry_ok copy_mode T fs (T @ [path_name f])"
    by simp_all
  have step: "stage_file copy_mode T fs f = (None, fs1)"
    unfolding fs1_def by (rule stage_file_ok [OF Cons.prems(1,2) f])
  have dir1: "fs1 T = Some Dir"
    using Cons.prems(1) by (simp add: fs1_def)
  have src1: "\<forall>g \<in> set rest. source_ok T fs1 g"
    using Cons.prems(3) by (simp add: fs1_def source_ok_upd)
  have ent1: "\<forall>g \<in> set rest. entry_ok copy_mode T fs1 (T @ [path_name g])"
    using Cons.prems(4) f(1) by (simp add: fs1_def entry_ok_upd)
  have same: "fs1 g = fs g" if "g \<in> set rest" for g
  proof -
    from that Cons.prems(3) have "source_ok T fs g" by simp
    then have "g \<noteq> T @ [path_name f]"
      by (rule source_ok_node)
    then show ?thesis by (simp add: fs1_def)
  qed
  have "stage_files copy_mode T fs1 rest = (None, staged copy_mode T fs1 rest)"
    by (rule Cons.IH [OF dir1 Cons.prems(2) src1 ent1])
  also have "staged copy_mode T fs1 rest
      = foldl (\<lambda>a f. a(T @ [path_name f] \<mapsto> staged_entry copy_mode fs f)) fs1 rest"
    unfolding staged_def
    by (rule foldl_fun_cong) (simp add: staged_entry_cong [OF same])
  also have "\<dots> = staged copy_mode T fs (f # rest)"
    by (simp add: staged_Cons fs1_def)
  finally show ?case
    by (simp add: step)
qed

lemma staged_apply:
  "staged copy_mode T fs files q
     = (case filter (\<lambda>f. T @ [path_name f] = q) (rev files) of
          [] \<Rightarrow> fs q
        | g # others \<Rightarrow> Some (staged_entry copy_mode fs g))"
proof (induction files rule: rev_induct)
  case Nil
  show ?case by (simp add: staged_def)
next
  case (snoc f files)
  then show ?case
    by (simp add: staged_snoc)
qed

lemma staged_other:
  assumes "\<And>n. q \<noteq> T @ [n]"
  shows "staged copy_mode T fs files q = fs q"
proof -
  have "filter (\<lambda>f. T @ [path_name f] = q) (rev files) = []"
    using assms by (auto simp: filter_empty_conv)
  then show ?thesis
    by (simp add: staged_apply)
qed



lemma staged_entry_in_files:
  assumes "f \<in> set files"
  obtains g where "g \<in> set files" and "path_name g = path_name f"
    and "staged copy_mode T fs files (T @ [path_name f]) = Some (staged_entry copy_mode fs g)"
proof -
  from assms have "filter (\<lambda>h. path_name h = path_name f) (rev files) \<noteq> []"
    by (auto simp: filter_empty_conv)
  then obtain g others where
    go: "filter (\<lambda>h. path_name h = path_name f) (rev files) = g # others"
    by (cases "filter (\<lambda>h. path_name h = path_name f) (rev files)") auto
  then have "g \<in> set (filter (\<lambda>h. path_name h = path_name f) (rev files))"
    by simp
  then have "g \<in> set files" "path_name g = path_name f"
    by simp_all
  moreover have "staged copy_mode T fs files (T @ [path_name f])
      = Some (staged_entry copy_mode fs g)"
    by (simp add: staged_apply go)
  ultimately show ?thesis
    by (rule that)
qed

text \<open>
  In link mode, staging the same files again into a directory whose links are alive
  changes nothing.
\<close>

lemma restaging_is_idempotent:
  assumes "fs T = Some Dir" and "T \<noteq> []"
    and "\<forall>f \<in> set files. source_ok T fs f"
    and "\<forall>f \<in> set files. entry_ok False T fs (T @ [path_name f])"
  shows "stage_files False T fs files = (None, staged False T fs files)"
    and "stage_files False T (staged False T fs files) files = (None, staged False T fs files)"
proof -
  define fs' where "fs' = staged False T fs files"
  show "stage_files False T fs files = (None, staged False T fs files)"
    by (rule stage_files_ok [OF assms])
  have other: "fs' q = fs q" if "\<And>n. q \<noteq> T @ [n]" for q
    unfolding fs'_def using that by (rule staged_other)
  have dir: "fs' T = Some Dir"
    using assms(1) by (simp add: other)
  have src: "source_ok T fs' f" if "source_ok T fs f" for f
  proof -
    from that have "\<And>n. f \<noteq> T @ [n]"
      by (rule source_ok_node)
    then have "fs' f = fs f"
      by (rule other)
    with that show ?thesis
      by (simp add: source_ok_def)
  qed
  have ent: "entry_ok False T fs' (T @ [path_name f])" if "f \<in> set files" for f
  proof -
    from that obtain g where g: "g \<in> set files"
      "staged False T fs files (T @ [path_name f]) = Some (staged_entry False fs g)"
      by (rule staged_entry_in_files)
    from g(1) assms(3) have "source_ok T fs' g"
      by (simp add: src)
    with g(2) show ?thesis
      by (simp add: entry_ok_def fs'_def staged_entry_def)
  qed
  have "stage_files False T fs' files = (None, staged False T fs' files)"
    using assms(3) by (intro stage_files_ok dir assms(2)) (simp_all add: src ent)
  moreover have "staged False T fs' files = fs'"
  proof
    fix q
    have a: "staged False T fs' files q
        = (case filter (\<lambda>f. T @ [path_name f] = q) (rev files) of
             [] \<Rightarrow> fs' q | g # others \<Rightarrow> Some (Symlink g))"
      by (simp only: staged_apply staged_entry_def if_False)
    have b: "fs' q
        = (case filter (\<lambda>f. T @ [path_name f] = q) (rev files) of
             [] \<Rightarrow> fs q | g # others \<Rightarrow> Some (Symlink g))"
      by (simp only: fs'_def staged_apply staged_entry_def if_False)
    show "staged False T fs' files q = fs' q"
    proof (cases "filter (\<lambda>f. T @ [path_name f] = q) (rev files)")
      case Nil
      then show ?thesis by (simp only: a list.case)
    next
      case (Cons g others)
      then show ?thesis by (simp only: a b list.case)
    qed
  qed
  ultimately show "stage_files False T (staged False T fs files) files
      = (None, staged False T fs files)"
    by (simp add: fs'_def)
qed

subsection \<open>Files of the same name\<close>











end
